theory Spec2Isabelle
  imports Main "HOL-Library.Sublist"
begin

section \<open>Strings, runes and the Unicode tables\<close>

text \<open>
  The generator (\<^verbatim>\<open>generator/generator.go\<close>) works on Go strings. Every function
  modelled here reads a string rune by rune (\<^verbatim>\<open>for _, r := range s\<close>,
  \<^verbatim>\<open>strings.EqualFold\<close>, \<^verbatim>\<open>strings.ToLower\<close>) or treats it as an opaque value that
  is compared and concatenated, so a Go string is modelled by the list of Unicode code
  points that ranging over it yields.
\<close>

type_synonym rune = nat
type_synonym gostring = "rune list"

definition runes :: "string \<Rightarrow> gostring" where
  "runes cs = map of_char cs"

text \<open>
  The character tables behind Go's standard packages \<^verbatim>\<open>unicode\<close>, \<^verbatim>\<open>strings\<close> and
  \<^verbatim>\<open>strconv\<close> are not part of the repository; the functions below take them as a
  parameter \<open>L\<close>. \<open>Orbit L lo hi\<close> stands for the test at the end of
  \<^verbatim>\<open>strings.EqualFold\<close>: starting from the smaller rune \<open>lo\<close>, repeated
  \<^verbatim>\<open>unicode.SimpleFold\<close> reaches the larger rune \<open>hi\<close>. \<open>Quote L\<close> is
  \<^verbatim>\<open>strconv.Quote\<close>, whose escaping rests on the table of printable runes.
\<close>

record stdlib =
  IsLetter :: "rune \<Rightarrow> bool"
  IsDigit :: "rune \<Rightarrow> bool"
  IsUpper :: "rune \<Rightarrow> bool"
  ToUpper :: "rune \<Rightarrow> rune"
  ToLower :: "rune \<Rightarrow> rune"
  Orbit :: "rune \<Rightarrow> rune \<Rightarrow> bool"
  Quote :: "gostring \<Rightarrow> gostring"

text \<open>Line feed, tab and the double quote, which the emitted text is full of.\<close>

definition NL :: gostring where
  "NL = [10]"

definition TAB :: gostring where
  "TAB = [9]"

definition DQ :: gostring where
  "DQ = [34]"

text \<open>\<^verbatim>\<open>strconv.Quote\<close> on ASCII runes: quote and backslash are escaped, printable
  runes are kept, control characters are written as escapes.\<close>

definition lowerhex :: "nat \<Rightarrow> rune" where
  "lowerhex d = (if d < 10 then 48 + d else 87 + d)"

definition quoteRuneASCII :: "rune \<Rightarrow> gostring" where
  "quoteRuneASCII r =
     (if r = 34 \<or> r = 92 then [92, r]
      else if 32 \<le> r \<and> r \<le> 126 then [r]
      else if r = 7 then [92, 97]
      else if r = 8 then [92, 98]
      else if r = 12 then [92, 102]
      else if r = 10 then [92, 110]
      else if r = 13 then [92, 114]
      else if r = 9 then [92, 116]
      else if r = 11 then [92, 118]
      else if r < 32 \<or> r = 127 then [92, 120, lowerhex (r div 16), lowerhex (r mod 16)]
      else [r])"

text \<open>
  The tables on U+0000..U+007F. Code points from U+0080 on are left caseless, outside
  every class and unescaped, so this instance is only evaluated on ASCII inputs.
\<close>

definition ascii :: stdlib where
  "ascii = \<lparr>
     IsLetter = (\<lambda>r. (65 \<le> r \<and> r \<le> 90) \<or> (97 \<le> r \<and> r \<le> 122)),
     IsDigit = (\<lambda>r. 48 \<le> r \<and> r \<le> 57),
     IsUpper = (\<lambda>r. 65 \<le> r \<and> r \<le> 90),
     ToUpper = (\<lambda>r. if 97 \<le> r \<and> r \<le> 122 then r - 32 else r),
     ToLower = (\<lambda>r. if 65 \<le> r \<and> r \<le> 90 then r + 32 else r),
     Orbit = (\<lambda>lo hi. 65 \<le> lo \<and> lo \<le> 90 \<and> hi = lo + 32),
     Quote = (\<lambda>s. DQ @ concat (map quoteRuneASCII s) @ DQ) \<rparr>"

text \<open>
  The same tables with the four code points of the folding orbit of the Greek iota:
  U+0345 COMBINING GREEK YPOGEGRAMMENI (a nonspacing mark, category Mn),
  U+0399 GREEK CAPITAL LETTER IOTA (Lu), U+03B9 GREEK SMALL LETTER IOTA (Ll) and
  U+1FBE GREEK PROSGEGRAMMENI (Ll). \<^verbatim>\<open>unicode.SimpleFold\<close> cycles
  U+0345, U+0399, U+03B9, U+1FBE; all four have the upper case U+0399. This instance is
  only evaluated on inputs made of ASCII and these four code points.
\<close>

definition ascii_iota :: stdlib where
  "ascii_iota = \<lparr>
     IsLetter = (\<lambda>r. IsLetter ascii r \<or> r = 0x399 \<or> r = 0x3B9 \<or> r = 0x1FBE),
     IsDigit = IsDigit ascii,
     IsUpper = (\<lambda>r. IsUpper ascii r \<or> r = 0x399),
     ToUpper = (\<lambda>r. if r = 0x345 \<or> r = 0x3B9 \<or> r = 0x1FBE then 0x399 else ToUpper ascii r),
     ToLower = (\<lambda>r. if r = 0x399 then 0x3B9 else ToLower ascii r),
     Orbit = (\<lambda>lo hi. Orbit ascii lo hi
                \<or> (lo \<in> {0x345, 0x399, 0x3B9, 0x1FBE} \<and> hi \<in> {0x399, 0x3B9, 0x1FBE} \<and> lo < hi)),
     Quote = Quote ascii \<rparr>"

subsection \<open>\<^verbatim>\<open>strings.EqualFold\<close>\<close>

text \<open>
  Two runes match when they are equal or, after ordering them, the smaller one folds to
  the larger one. Two strings match when they have the same number of runes and the
  runes match pairwise.
\<close>

definition equalFoldRune :: "stdlib \<Rightarrow> rune \<Rightarrow> rune \<Rightarrow> bool" where
  "equalFoldRune L sr tr =
     (if tr = sr then True
      else if tr < sr then Orbit L tr sr
      else Orbit L sr tr)"

fun EqualFold :: "stdlib \<Rightarrow> gostring \<Rightarrow> gostring \<Rightarrow> bool" where
  "EqualFold L [] t = (t = [])"
| "EqualFold L (sr # s) [] = False"
| "EqualFold L (sr # s) (tr # t) = (if equalFoldRune L sr tr then EqualFold L s t else False)"

section \<open>The identifier normalizer: \<^verbatim>\<open>convertToExportedIdentifier\<close>\<close>

text \<open>
  The first loop of \<^verbatim>\<open>convertToExportedIdentifier\<close>. Its state is the slice \<open>words\<close>
  and the flag \<open>nextCharShouldBeUpperCase\<close>. \<^verbatim>\<open>words[len(words)-1] += ...\<close> on an empty
  slice is an index-out-of-range panic in Go: the result \<open>None\<close>.
\<close>

fun scanWords :: "stdlib \<Rightarrow> gostring \<Rightarrow> gostring list \<Rightarrow> bool \<Rightarrow> gostring list option" where
  "scanWords L [] words nextCharShouldBeUpperCase = Some words"
| "scanWords L (r # s) words nextCharShouldBeUpperCase =
     (if IsLetter L r \<or> IsDigit L r then
        (if nextCharShouldBeUpperCase then
           scanWords L s (words @ [[] @ [ToUpper L r]]) False
         else if words = [] then None
         else scanWords L s
                (words[length words - 1 := words ! (length words - 1) @ [r]]) False)
      else scanWords L s words True)"

text \<open>The inner loop over \<open>forceCases\<close>: the first entry that matches replaces the word.\<close>

fun forceCase :: "stdlib \<Rightarrow> gostring \<Rightarrow> gostring list \<Rightarrow> gostring" where
  "forceCase L word [] = word"
| "forceCase L word (caseWord # forceCases) =
     (if EqualFold L word caseWord then caseWord else forceCase L word forceCases)"

text \<open>The second loop: \<^verbatim>\<open>result += word\<close> for every word.\<close>

fun joinWords :: "stdlib \<Rightarrow> gostring list \<Rightarrow> gostring list \<Rightarrow> gostring \<Rightarrow> gostring" where
  "joinWords L [] forceCases result = result"
| "joinWords L (word # words) forceCases result =
     joinWords L words forceCases (result @ forceCase L word forceCases)"

text \<open>
  \<open>firstRune\<close> is the first rune of \<open>result\<close>, or the zero value of \<^verbatim>\<open>rune\<close> when
  \<open>result\<close> is empty. The sentinel is the letter E.
\<close>

definition firstRuneOf :: "gostring \<Rightarrow> rune" where
  "firstRuneOf result = (case result of [] \<Rightarrow> 0 | r # _ \<Rightarrow> r)"

definition addSentinel :: "stdlib \<Rightarrow> gostring \<Rightarrow> gostring" where
  "addSentinel L result =
     (if result = [] \<or> \<not> IsUpper L (firstRuneOf result) then runes ''E'' @ result
      else result)"

definition convertToExportedIdentifier ::
    "stdlib \<Rightarrow> gostring \<Rightarrow> gostring list \<Rightarrow> gostring option" where
  "convertToExportedIdentifier L s forceCases =
     (case scanWords L s [] True of
        None \<Rightarrow> None
      | Some words \<Rightarrow> Some (addSentinel L (joinWords L words forceCases [])))"

subsection \<open>The normalizer as the specification words it\<close>

text \<open>
  The specification describes \<open>normalize\<close> by four steps: split the input into maximal
  runs of letters and digits, upper-case the first character of each run, replace a run
  that case-insensitively equals a \<open>forceCases\<close> entry by that entry, concatenate.
\<close>

definition alnum :: "stdlib \<Rightarrow> rune \<Rightarrow> bool" where
  "alnum L r = (IsLetter L r \<or> IsDigit L r)"

function spec_runs :: "('a \<Rightarrow> bool) \<Rightarrow> 'a list \<Rightarrow> 'a list list" where
  "spec_runs p [] = []"
| "spec_runs p (r # s) =
     (if p r then (r # takeWhile p s) # spec_runs p (dropWhile p s) else spec_runs p s)"
  by pat_completeness auto
termination
  by (relation "measure (\<lambda>(p, s). length s)") (auto simp: length_dropWhile_le less_Suc_eq_le)

definition spec_capitalize :: "stdlib \<Rightarrow> gostring \<Rightarrow> gostring" where
  "spec_capitalize L w = (case w of [] \<Rightarrow> [] | r # rs \<Rightarrow> ToUpper L r # rs)"

definition spec_force :: "stdlib \<Rightarrow> gostring list \<Rightarrow> gostring \<Rightarrow> gostring" where
  "spec_force L forceCases w =
     (case find (\<lambda>c. EqualFold L w c) forceCases of None \<Rightarrow> w | Some c \<Rightarrow> c)"

definition spec_words :: "stdlib \<Rightarrow> gostring \<Rightarrow> gostring list \<Rightarrow> gostring list" where
  "spec_words L s forceCases =
     map (spec_force L forceCases) (map (spec_capitalize L) (spec_runs (alnum L) s))"

section \<open>The type mapper: \<^verbatim>\<open>getType\<close>\<close>

text \<open>
  An error value carries its message (\<^verbatim>\<open>errors.New\<close>, \<^verbatim>\<open>fmt.Errorf\<close>, or whatever a
  driver returns).
\<close>

datatype error = Error gostring

record fieldDescriptor =
  Name :: gostring
  Type :: gostring
  Size :: int
  Unsigned :: bool
  AllowNull :: bool
  Comment :: gostring

definition strings_ToLower :: "stdlib \<Rightarrow> gostring \<Rightarrow> gostring" where
  "strings_ToLower L s = map (ToLower L) s"

definition HasPrefix :: "gostring \<Rightarrow> gostring \<Rightarrow> bool" where
  "HasPrefix s pre = (length s \<ge> length pre \<and> take (length pre) s = pre)"

text \<open>
  The \<^verbatim>\<open>switch\<close> of \<^verbatim>\<open>getType\<close> (lines 74 to 111): the family lookup. \<open>None\<close> is
  the \<^verbatim>\<open>default\<close> branch.
\<close>

definition getTypeSwitch :: "stdlib \<Rightarrow> fieldDescriptor \<Rightarrow> (gostring \<times> gostring) option" where
  "getTypeSwitch L fd =
     (let t = strings_ToLower L (Type fd) in
      if t = runes ''tinyint'' then
        Some (runes ''int8'', runes ''NumberField'')
      else if t = runes ''smallint'' then
        Some (runes ''int16'', runes ''NumberField'')
      else if t = runes ''int'' \<or> t = runes ''mediumint'' then
        Some (runes ''int32'', runes ''NumberField'')
      else if t = runes ''bigint'' \<or> t = runes ''integer'' then
        Some (runes ''int64'', runes ''NumberField'')
      else if t = runes ''float'' \<or> t = runes ''double'' \<or> t = runes ''decimal''
              \<or> t = runes ''real'' then
        Some (runes ''float64'', runes ''NumberField'')
      else if t = runes ''char'' \<or> t = runes ''varchar'' \<or> t = runes ''text''
              \<or> t = runes ''tinytext'' \<or> t = runes ''mediumtext'' \<or> t = runes ''longtext''
              \<or> t = runes ''enum'' \<or> t = runes ''datetime'' \<or> t = runes ''date''
              \<or> t = runes ''time'' \<or> t = runes ''timestamp'' \<or> t = runes ''json''
              \<or> t = runes ''numeric'' \<or> t = runes ''character varying'' then
        Some (runes ''string'', runes ''StringField'')
      else if t = runes ''binary'' \<or> t = runes ''varbinary'' \<or> t = runes ''blob''
              \<or> t = runes ''tinyblob'' \<or> t = runes ''mediumblob''
              \<or> t = runes ''longblob'' then
        Some (runes ''string'', runes ''StringField'')
      else if t = runes ''geometry'' \<or> t = runes ''point'' \<or> t = runes ''linestring''
              \<or> t = runes ''polygon'' \<or> t = runes ''multipoint''
              \<or> t = runes ''multilinestring'' \<or> t = runes ''multipolygon''
              \<or> t = runes ''geometrycollection'' then
        Some (runes ''sqlingo.WellKnownBinary'', runes ''WellKnownBinaryField'')
      else if t = runes ''bit'' then
        (if Size fd = 1 then Some (runes ''bool'', runes ''BooleanField'')
         else Some (runes ''string'', runes ''StringField''))
      else None)"

text \<open>
  \<^verbatim>\<open>getType\<close> has the named results \<open>(goType, fieldClass, err)\<close>. In the
  \<^verbatim>\<open>default\<close> branch it returns with \<open>goType\<close> and \<open>fieldClass\<close> still at their zero
  value, the empty string. After the switch come the two adjustments of lines 112 to 117.
\<close>

definition getType :: "stdlib \<Rightarrow> fieldDescriptor \<Rightarrow> gostring \<times> gostring \<times> error option" where
  "getType L fd =
     (case getTypeSwitch L fd of
        None \<Rightarrow> ([], [], Some (Error (runes ''unknown field type '' @ Type fd)))
      | Some (goType0, fieldClass) \<Rightarrow>
          (let goType1 = (if Unsigned fd \<and> HasPrefix goType0 (runes ''int'')
                          then runes ''u'' @ goType0 else goType0);
               goType2 = (if AllowNull fd then runes ''*'' @ goType1 else goType1)
           in (goType2, fieldClass, None)))"

subsection \<open>The type mapper's vocabulary in the specification\<close>

text \<open>The raw type names of the recognized families: the labels of the switch.\<close>

definition recognizedTypes :: "gostring list" where
  "recognizedTypes = map runes
     [''tinyint'', ''smallint'', ''int'', ''mediumint'', ''bigint'', ''integer'',
      ''float'', ''double'', ''decimal'', ''real'',
      ''char'', ''varchar'', ''text'', ''tinytext'', ''mediumtext'', ''longtext'', ''enum'',
      ''datetime'', ''date'', ''time'', ''timestamp'', ''json'', ''numeric'',
      ''character varying'',
      ''binary'', ''varbinary'', ''blob'', ''tinyblob'', ''mediumblob'', ''longblob'',
      ''geometry'', ''point'', ''linestring'', ''polygon'', ''multipoint'',
      ''multilinestring'', ''multipolygon'', ''geometrycollection'',
      ''bit'']"

text \<open>The scalar types a family maps to, each with its field category.\<close>

definition baseTypes :: "(gostring \<times> gostring) list" where
  "baseTypes =
     [(runes ''int8'', runes ''NumberField''), (runes ''int16'', runes ''NumberField''),
      (runes ''int32'', runes ''NumberField''), (runes ''int64'', runes ''NumberField''),
      (runes ''float64'', runes ''NumberField''), (runes ''string'', runes ''StringField''),
      (runes ''sqlingo.WellKnownBinary'', runes ''WellKnownBinaryField''),
      (runes ''bool'', runes ''BooleanField'')]"

text \<open>The field categories.\<close>

definition fieldCategories :: "gostring list" where
  "fieldCategories =
     [runes ''NumberField'', runes ''StringField'', runes ''WellKnownBinaryField'',
      runes ''BooleanField'']"

text \<open>The integer scalar types, and the unsigned variant of the same width.\<close>

definition integerTypes :: "gostring list" where
  "integerTypes = [runes ''int8'', runes ''int16'', runes ''int32'', runes ''int64'']"

definition unsignedVariant :: "gostring \<Rightarrow> gostring" where
  "unsignedVariant t =
     (if t = runes ''int8'' then runes ''uint8''
      else if t = runes ''int16'' then runes ''uint16''
      else if t = runes ''int32'' then runes ''uint32''
      else if t = runes ''int64'' then runes ''uint64''
      else t)"

text \<open>The optional wrapper of a scalar type is the pointer type.\<close>

definition optionalOf :: "gostring \<Rightarrow> gostring" where
  "optionalOf t = runes ''*'' @ t"

section \<open>The schema fetcher, the output sink and the log of a run\<close>

text \<open>
  The schema fetcher is an interface whose implementations query a database; they are
  outside the generator. A fetcher is modelled by what its methods return, each a Go
  result pair \<open>(value, err)\<close>.
\<close>

record schemaFetcher =
  GetDatabaseName :: "gostring \<times> error option"
  GetTableNames :: "gostring list \<times> error option"
  GetFieldDescriptors :: "gostring \<Rightarrow> fieldDescriptor list \<times> error option"
  QuoteIdentifier :: "gostring \<Rightarrow> gostring"

text \<open>
  What the operating system and the database drivers answer: whether \<^verbatim>\<open>sql.Open\<close>
  fails, the fetcher each constructor builds, what \<^verbatim>\<open>os.Stat\<close> finds at a path, the
  word read from standard input at the overwrite prompt, and whether \<^verbatim>\<open>os.OpenFile\<close>
  fails.
\<close>

datatype stat = StatFound | StatNotExist | StatFailed error

record world =
  sql_Open :: "gostring \<Rightarrow> gostring \<Rightarrow> error option"
  newMySQLSchemaFetcher :: schemaFetcher
  newSQLite3SchemaFetcher :: schemaFetcher
  newPostgresSchemaFetcher :: schemaFetcher
  os_Stat :: "gostring \<Rightarrow> stat"
  Scanln :: gostring
  os_OpenFile :: "gostring \<rightharpoonup> error"

text \<open>
  The observable steps of a run, in order: the calls of the fetcher that discover
  something, and the files handed to the sink with their content. Messages printed to the
  terminal are not recorded.
\<close>

datatype event =
    CallGetDatabaseName
  | CallGetTableNames
  | CallGetFieldDescriptors gostring
  | FileWritten gostring gostring

text \<open>
  How a function ends: it returns an error value or \<^verbatim>\<open>nil\<close>, it panics, or it ends
  the process with an exit code.
\<close>

datatype outcome = Returned "error option" | Panicked | Exited int

text \<open>
  \<^verbatim>\<open>WriteToFile\<close>: when the file exists and \<open>force\<close> is off the user is asked, and any
  answer but Y or y skips the file without an error. Otherwise the file is opened
  (created, truncated) and the buffer is written; the result of the write itself is
  ignored by the source.
\<close>

definition PathExists :: "world \<Rightarrow> gostring \<Rightarrow> bool \<times> error option" where
  "PathExists W path =
     (case os_Stat W path of
        StatFound \<Rightarrow> (True, None)
      | StatNotExist \<Rightarrow> (False, None)
      | StatFailed err \<Rightarrow> (False, Some err))"

definition WriteToFile ::
    "world \<Rightarrow> gostring \<Rightarrow> gostring \<Rightarrow> bool \<Rightarrow> event list \<Rightarrow> event list \<times> error option" where
  "WriteToFile W buffer outputFile force log =
     (let exists = fst (PathExists W outputFile) in
      if exists \<and> \<not> force \<and> Scanln W \<noteq> runes ''Y'' \<and> Scanln W \<noteq> runes ''y'' then
        (log, None)
      else
        (case os_OpenFile W outputFile of
           Some err \<Rightarrow> (log, Some err)
         | None \<Rightarrow> (log @ [FileWritten outputFile buffer], None)))"

section \<open>The header of every unit\<close>

text \<open>
  \<^verbatim>\<open>ensureIdentifier\<close>: the regular expression \<^verbatim>\<open>\W\<close> matches every rune that is not an
  ASCII letter, an ASCII digit or the underscore.
\<close>

definition isWordRune :: "rune \<Rightarrow> bool" where
  "isWordRune r =
     ((48 \<le> r \<and> r \<le> 57) \<or> (65 \<le> r \<and> r \<le> 90) \<or> r = 95 \<or> (97 \<le> r \<and> r \<le> 122))"

definition ensureIdentifier :: "gostring \<Rightarrow> gostring" where
  "ensureIdentifier name =
     (let result = map (\<lambda>r. if isWordRune r then r else 95) name in
      if result = [] \<or> (case result of [] \<Rightarrow> False | c # _ \<Rightarrow> 48 \<le> c \<and> c \<le> 57)
      then runes ''_'' @ result
      else result)"

definition newBuffWithBaseHeader :: "gostring \<Rightarrow> gostring" where
  "newBuffWithBaseHeader packageName =
     runes ''// This file is generated by sqlingo (https://github.com/lqs/sqlingo)'' @ NL
     @ runes ''// DO NOT EDIT.'' @ NL @ NL
     @ runes ''package '' @ ensureIdentifier packageName @ runes ''_dsl'' @ NL
     @ runes ''import '' @ DQ @ runes ''github.com/lqs/sqlingo'' @ DQ @ NL @ NL"

section \<open>The table emitter: \<^verbatim>\<open>generateTable\<close>\<close>

text \<open>The nine buffers that the loop over the column descriptors fills.\<close>

record tableBuffers =
  tableLines :: gostring
  modelLines :: gostring
  objectLines :: gostring
  fieldCaseLines :: gostring
  classLines :: gostring
  fieldsBuf :: gostring
  fieldsSQL :: gostring
  fullFieldsSQL :: gostring
  valuesBuf :: gostring

text \<open>\<^verbatim>\<open>strings.ReplaceAll\<close> for a pattern and a replacement of one rune each.\<close>

definition ReplaceAll :: "gostring \<Rightarrow> rune \<Rightarrow> rune \<Rightarrow> gostring" where
  "ReplaceAll s old new = map (\<lambda>r. if r = old then new else r) s"

text \<open>The name of the private wrapper type of a column (line 295).\<close>

definition fieldStructNameOf :: "stdlib \<Rightarrow> fieldDescriptor \<Rightarrow> gostring \<Rightarrow> gostring \<Rightarrow> gostring" where
  "fieldStructNameOf L fd className goName =
     strings_ToLower L (Type fd) @ runes ''_'' @ className @ runes ''_'' @ goName"

text \<open>The comment line of a column (lines 290 to 293), empty without a comment.\<close>

definition commentLineOf :: "fieldDescriptor \<Rightarrow> gostring" where
  "commentLineOf fd =
     (if Comment fd \<noteq> [] then TAB @ runes ''// '' @ ReplaceAll (Comment fd) 10 32 @ NL
      else [])"

text \<open>
  The body of the loop (lines 282 to 323) for one column descriptor \<open>fd\<close>, on the
  buffers \<open>b\<close>. \<open>Inl\<close> leaves \<^verbatim>\<open>generateTable\<close>: with the error of \<^verbatim>\<open>getType\<close>, or
  with a panic where \<^verbatim>\<open>fieldClass[0]\<close> indexes an empty string. \<open>fieldClass[0]\<close> is a
  byte and \<^verbatim>\<open>fieldClass[0]+'a'-'A'\<close> is computed in bytes.
\<close>

definition generateField ::
    "stdlib \<Rightarrow> schemaFetcher \<Rightarrow> gostring \<Rightarrow> gostring \<Rightarrow> gostring \<Rightarrow> gostring list
      \<Rightarrow> fieldDescriptor \<Rightarrow> tableBuffers \<Rightarrow> outcome + tableBuffers" where
  "generateField L fetcher tableName className tableObjectName forceCases fd b =
     (case convertToExportedIdentifier L (Name fd) forceCases of
        None \<Rightarrow> Inl Panicked
      | Some goName \<Rightarrow>
          (case getType L fd of
             (goType, fieldClass, Some err) \<Rightarrow> Inl (Returned (Some err))
           | (goType, fieldClass, None) \<Rightarrow>
               (case fieldClass of
                  [] \<Rightarrow> Inl Panicked
                | c # cs \<Rightarrow>
                    (let privateFieldClass = [(c + 97 - 65) mod 256] @ cs;
                         commentLine = commentLineOf fd;
                         fieldStructName = fieldStructNameOf L fd className goName
                     in Inr (b\<lparr>
                          tableLines := tableLines b @ commentLine
                            @ TAB @ goName @ runes '' '' @ fieldStructName @ NL,
                          modelLines := modelLines b @ commentLine
                            @ TAB @ goName @ runes '' '' @ goType @ NL,
                          objectLines := objectLines b @ commentLine
                            @ (TAB @ goName @ runes '': '' @ fieldStructName @ runes ''{'')
                            @ (runes ''sqlingo.New'' @ fieldClass @ runes ''('' @ tableObjectName
                                 @ runes '', '' @ Quote L (Name fd) @ runes '')},'' @ NL),
                          fieldCaseLines := fieldCaseLines b
                            @ TAB @ runes ''case '' @ Quote L (Name fd) @ runes '': return t.''
                            @ goName @ NL,
                          classLines := classLines b
                            @ runes ''type '' @ fieldStructName @ runes '' struct{ ''
                            @ privateFieldClass @ runes '' }'' @ NL,
                          fieldsBuf := fieldsBuf b @ runes ''t.'' @ goName @ runes '', '',
                          fieldsSQL := fieldsSQL b
                            @ (if length (fieldsSQL b) \<noteq> 0 then runes '', '' else [])
                            @ QuoteIdentifier fetcher (Name fd),
                          fullFieldsSQL := fullFieldsSQL b
                            @ (if length (fullFieldsSQL b) \<noteq> 0 then runes '', '' else [])
                            @ (QuoteIdentifier fetcher tableName @ runes ''.''
                                 @ QuoteIdentifier fetcher (Name fd)),
                          valuesBuf := valuesBuf b @ runes ''m.'' @ goName @ runes '', ''
                        \<rparr>)))))"

text \<open>The loop \<^verbatim>\<open>for _, fieldDescriptor := range fieldDescriptors\<close>.\<close>

fun fieldsLoop ::
    "stdlib \<Rightarrow> schemaFetcher \<Rightarrow> gostring \<Rightarrow> gostring \<Rightarrow> gostring \<Rightarrow> gostring list
      \<Rightarrow> fieldDescriptor list \<Rightarrow> tableBuffers \<Rightarrow> outcome + tableBuffers" where
  "fieldsLoop L fetcher tableName className tableObjectName forceCases [] b = Inr b"
| "fieldsLoop L fetcher tableName className tableObjectName forceCases (fd # fds) b =
     (case generateField L fetcher tableName className tableObjectName forceCases fd b of
        Inl out \<Rightarrow> Inl out
      | Inr b' \<Rightarrow> fieldsLoop L fetcher tableName className tableObjectName forceCases fds b')"

text \<open>
  The text of the table unit, from the filled buffers, in two parts: the accessor record
  of the table with its helpers (lines 326 to 356), and the model record with its two
  conversion helpers (lines 358 to 368).
\<close>

definition tableAccessorUnit ::
    "stdlib \<Rightarrow> gostring \<Rightarrow> gostring \<Rightarrow> gostring \<Rightarrow> tableBuffers \<Rightarrow> gostring" where
  "tableAccessorUnit L dbName tableName className b =
     (let tableStructName = runes ''t'' @ className;
          tableObjectName = runes ''o'' @ className
      in newBuffWithBaseHeader dbName
         @ []
         @ (runes ''type '' @ tableStructName @ runes '' struct {'' @ NL @ TAB @ runes ''table''
              @ NL @ NL)
         @ tableLines b
         @ (runes ''}'' @ NL @ NL)
         @ classLines b
         @ (runes ''var '' @ tableObjectName @ runes '' = sqlingo.NewTable(''
              @ Quote L tableName @ runes '')'' @ NL)
         @ (runes ''var '' @ className @ runes '' = '' @ tableStructName @ runes ''{'' @ NL)
         @ objectLines b
         @ (runes ''}'' @ NL @ NL)
         @ (runes ''func (t t'' @ className @ runes '') GetFields() []sqlingo.Field {'' @ NL)
         @ (TAB @ runes ''return []sqlingo.Field{'' @ fieldsBuf b @ runes ''}'' @ NL)
         @ (runes ''}'' @ NL @ NL)
         @ (runes ''func (t t'' @ className
              @ runes '') GetFieldByName(name string) sqlingo.Field {'' @ NL)
         @ (TAB @ runes ''switch name {'' @ NL)
         @ fieldCaseLines b
         @ (TAB @ runes ''default: return nil'' @ NL)
         @ (TAB @ runes ''}'' @ NL)
         @ (runes ''}'' @ NL @ NL)
         @ (runes ''func (t t'' @ className @ runes '') GetFieldsSQL() string {'' @ NL)
         @ (TAB @ runes ''return '' @ Quote L (fieldsSQL b) @ NL)
         @ (runes ''}'' @ NL @ NL)
         @ (runes ''func (t t'' @ className @ runes '') GetFullFieldsSQL() string {'' @ NL)
         @ (TAB @ runes ''return '' @ Quote L (fullFieldsSQL b) @ NL)
         @ (runes ''}'' @ NL @ NL))"

definition tableModelUnit :: "gostring \<Rightarrow> gostring \<Rightarrow> gostring \<Rightarrow> gostring" where
  "tableModelUnit className modelFields modelValues =
     (let modelClassName = className @ runes ''Model''
      in (runes ''type '' @ modelClassName @ runes '' struct {'' @ NL)
         @ modelFields
         @ (runes ''}'' @ NL @ NL)
         @ (runes ''func (m '' @ modelClassName @ runes '') GetTable() sqlingo.Table {'' @ NL)
         @ (TAB @ runes ''return '' @ className @ NL)
         @ (runes ''}'' @ NL @ NL)
         @ (runes ''func (m '' @ modelClassName @ runes '') GetValues() []interface{} {'' @ NL)
         @ (TAB @ runes ''return []interface{}{'' @ modelValues @ runes ''}'' @ NL)
         @ (runes ''}'' @ NL @ NL))"

definition tableUnit ::
    "stdlib \<Rightarrow> gostring \<Rightarrow> gostring \<Rightarrow> gostring \<Rightarrow> tableBuffers \<Rightarrow> gostring" where
  "tableUnit L dbName tableName className b =
     tableAccessorUnit L dbName tableName className b
     @ tableModelUnit className (modelLines b) (valuesBuf b)"

text \<open>The buffers before the loop: all empty but \<open>objectLines\<close> (line 278).\<close>

definition initialBuffers :: "gostring \<Rightarrow> tableBuffers" where
  "initialBuffers tableObjectName =
     \<lparr> tableLines = [], modelLines = [],
       objectLines = TAB @ runes ''table: '' @ tableObjectName @ runes '','' @ NL @ NL,
       fieldCaseLines = [], classLines = [], fieldsBuf = [], fieldsSQL = [],
       fullFieldsSQL = [], valuesBuf = [] \<rparr>"

text \<open>The path of a table unit (line 369) and of the base unit (line 228).\<close>

definition tableUnitPath :: "gostring \<Rightarrow> gostring \<Rightarrow> gostring" where
  "tableUnitPath outputPath tableName = outputPath @ runes ''/'' @ tableName @ runes ''.go''"

definition baseUnitPath :: "gostring \<Rightarrow> gostring" where
  "baseUnitPath outputPath = outputPath @ runes ''/base.dsl.go''"

text \<open>
  \<^verbatim>\<open>generateTable\<close>. \<open>outputPath\<close> is the global flag it reads; \<open>log\<close> is the log of
  the run so far.
\<close>

definition generateTable ::
    "stdlib \<Rightarrow> world \<Rightarrow> gostring \<Rightarrow> schemaFetcher \<Rightarrow> gostring \<Rightarrow> gostring \<Rightarrow> gostring list
      \<Rightarrow> event list \<Rightarrow> event list \<times> outcome" where
  "generateTable L W outputPath fetcher dbName tableName forceCases log =
     (let log1 = log @ [CallGetFieldDescriptors tableName] in
      case GetFieldDescriptors fetcher tableName of
        (fieldDescriptors, Some err) \<Rightarrow> (log1, Returned (Some err))
      | (fieldDescriptors, None) \<Rightarrow>
          (case convertToExportedIdentifier L tableName forceCases of
             None \<Rightarrow> (log1, Panicked)
           | Some className \<Rightarrow>
               (let tableObjectName = runes ''o'' @ className in
                case fieldsLoop L fetcher tableName className tableObjectName forceCases
                       fieldDescriptors (initialBuffers tableObjectName) of
                  Inl out \<Rightarrow> (log1, out)
                | Inr b \<Rightarrow>
                    (case WriteToFile W (tableUnit L dbName tableName className b)
                            (tableUnitPath outputPath tableName) True log1 of
                       (log2, err) \<Rightarrow> (log2, Returned err)))))"

section \<open>The orchestrator: \<^verbatim>\<open>Generate\<close>\<close>

text \<open>\<^verbatim>\<open>strconv.Itoa\<close>: the decimal digits of an integer.\<close>

fun Itoa_nat :: "nat \<Rightarrow> gostring" where
  "Itoa_nat n = (if n < 10 then [48 + n] else Itoa_nat (n div 10) @ [48 + n mod 10])"

declare Itoa_nat.simps [simp del]

definition Itoa :: "int \<Rightarrow> gostring" where
  "Itoa i = (if i < 0 then runes ''-'' @ Itoa_nat (nat (- i)) else Itoa_nat (nat i))"

definition sqlingoGeneratorVersion :: int where
  "sqlingoGeneratorVersion = 2"

text \<open>\<^verbatim>\<open>strings.Split\<close> at a separator of one rune.\<close>

fun Split :: "gostring \<Rightarrow> rune \<Rightarrow> gostring list" where
  "Split [] sep = [[]]"
| "Split (r # s) sep =
     (if r = sep then [] # Split s sep
      else (case Split s sep of [] \<Rightarrow> [[r]] | w # ws \<Rightarrow> (r # w) # ws))"

text \<open>The command-line flags and the options built from them (lines 171 to 178).\<close>

record flags =
  outputPath :: gostring
  databaseConnection :: gostring
  tables :: gostring
  forcecases :: gostring

record options =
  dataSourceName :: gostring
  tableNames :: "gostring list"
  forceCases :: "gostring list"

definition parseOptions :: "flags \<Rightarrow> options" where
  "parseOptions F =
     \<lparr> dataSourceName = databaseConnection F,
       tableNames = (if length (tables F) \<noteq> 0 then Split (tables F) 44 else []),
       forceCases = (if length (forcecases F) \<noteq> 0 then Split (forcecases F) 44 else []) \<rparr>"

text \<open>\<^verbatim>\<open>getSchemaFetcherFactory\<close>, applied to the connection; \<open>None\<close> is the branch that
  ends the process with exit code 2.\<close>

definition getSchemaFetcherFactory :: "world \<Rightarrow> gostring \<Rightarrow> schemaFetcher option" where
  "getSchemaFetcherFactory W driverName =
     (if driverName = runes ''mysql'' then Some (newMySQLSchemaFetcher W)
      else if driverName = runes ''sqlite3'' then Some (newSQLite3SchemaFetcher W)
      else if driverName = runes ''postgres'' then Some (newPostgresSchemaFetcher W)
      else None)"

text \<open>The base unit up to the four marker interfaces (lines 197 to 219).\<close>

definition baseUnitHead :: "gostring \<Rightarrow> gostring" where
  "baseUnitHead dbName =
     (let sqlingoGeneratorVersionString = Itoa sqlingoGeneratorVersion
      in newBuffWithBaseHeader dbName
         @ (runes ''type sqlingoRuntimeAndGeneratorVersionsShouldBeTheSame uint32'' @ NL @ NL)
         @ (runes ''const _ = sqlingoRuntimeAndGeneratorVersionsShouldBeTheSame(sqlingo.SqlingoRuntimeVersion - ''
              @ sqlingoGeneratorVersionString @ runes '')'' @ NL)
         @ (runes ''const _ = sqlingoRuntimeAndGeneratorVersionsShouldBeTheSame(''
              @ sqlingoGeneratorVersionString @ runes '' - sqlingo.SqlingoRuntimeVersion)''
              @ NL @ NL)
         @ (runes ''type table interface {'' @ NL)
         @ (TAB @ runes ''sqlingo.Table'' @ NL)
         @ (runes ''}'' @ NL @ NL)
         @ (runes ''type numberField interface {'' @ NL)
         @ (TAB @ runes ''sqlingo.NumberField'' @ NL)
         @ (runes ''}'' @ NL @ NL)
         @ (runes ''type stringField interface {'' @ NL)
         @ (TAB @ runes ''sqlingo.StringField'' @ NL)
         @ (runes ''}'' @ NL @ NL)
         @ (runes ''type booleanField interface {'' @ NL)
         @ (TAB @ runes ''sqlingo.BooleanField'' @ NL)
         @ (runes ''}'' @ NL @ NL))"

text \<open>
  \<^verbatim>\<open>generateGetTable\<close> appends to the buffer \<open>buf\<close>. Its two loops over the table
  names come first; \<open>None\<close> is a panic of \<^verbatim>\<open>convertToExportedIdentifier\<close>.
\<close>

fun getTableCases :: "stdlib \<Rightarrow> gostring list \<Rightarrow> gostring list \<Rightarrow> gostring \<Rightarrow> gostring option" where
  "getTableCases L [] fcs buf = Some buf"
| "getTableCases L (tableName # rest) fcs buf =
     (case convertToExportedIdentifier L tableName fcs of
        None \<Rightarrow> None
      | Some ident \<Rightarrow>
          getTableCases L rest fcs
            (buf @ TAB @ runes ''case '' @ Quote L tableName @ runes '': return '' @ ident @ NL))"

fun getTablesItems :: "stdlib \<Rightarrow> gostring list \<Rightarrow> gostring list \<Rightarrow> gostring \<Rightarrow> gostring option" where
  "getTablesItems L [] fcs buf = Some buf"
| "getTablesItems L (tableName # rest) fcs buf =
     (case convertToExportedIdentifier L tableName fcs of
        None \<Rightarrow> None
      | Some ident \<Rightarrow> getTablesItems L rest fcs (buf @ TAB @ ident @ runes '','' @ NL))"

definition generateGetTable :: "stdlib \<Rightarrow> gostring \<Rightarrow> options \<Rightarrow> gostring option" where
  "generateGetTable L buf opts =
     (let buf1 = buf @ (runes ''func GetTable(name string) sqlingo.Table {'' @ NL)
                     @ (TAB @ runes ''switch name {'' @ NL)
      in case getTableCases L (tableNames opts) (forceCases opts) buf1 of
           None \<Rightarrow> None
         | Some buf2 \<Rightarrow>
             (let buf3 = buf2 @ (TAB @ runes ''default: return nil'' @ NL)
                              @ (TAB @ runes ''}'' @ NL)
                              @ (runes ''}'' @ NL @ NL)
                              @ (runes ''func GetTables() []sqlingo.Table {'' @ NL)
                              @ (TAB @ runes ''return []sqlingo.Table{'' @ NL)
              in case getTablesItems L (tableNames opts) (forceCases opts) buf3 of
                   None \<Rightarrow> None
                 | Some buf4 \<Rightarrow> Some (buf4 @ (TAB @ runes ''}'') @ (runes ''}'' @ NL @ NL))))"

text \<open>The loop over the table names at the end of \<^verbatim>\<open>Generate\<close> (lines 233 to 241).\<close>

fun generateTables ::
    "stdlib \<Rightarrow> world \<Rightarrow> gostring \<Rightarrow> schemaFetcher \<Rightarrow> gostring \<Rightarrow> gostring list \<Rightarrow> gostring list
      \<Rightarrow> event list \<Rightarrow> event list \<times> outcome" where
  "generateTables L W outPath fetcher dbName [] fcs log = (log, Returned None)"
| "generateTables L W outPath fetcher dbName (tableName # rest) fcs log =
     (case generateTable L W outPath fetcher dbName tableName fcs log of
        (log', Returned None) \<Rightarrow> generateTables L W outPath fetcher dbName rest fcs log'
      | (log', out) \<Rightarrow> (log', out))"

text \<open>
  \<^verbatim>\<open>Generate\<close>, from the parsed flags \<open>F\<close>. \<^verbatim>\<open>printUsageAndExit\<close> ends the process with
  exit code 1. The log starts empty.
\<close>

definition Generate :: "stdlib \<Rightarrow> world \<Rightarrow> flags \<Rightarrow> gostring \<Rightarrow> event list \<times> outcome" where
  "Generate L W F driverName =
     (if length (outputPath F) = 0 then ([], Exited 1)
      else if length (databaseConnection F) = 0 then ([], Exited 1)
      else
        (let opts = parseOptions F in
         case sql_Open W driverName (dataSourceName opts) of
           Some err \<Rightarrow> ([], Returned (Some err))
         | None \<Rightarrow>
             (case getSchemaFetcherFactory W driverName of
                None \<Rightarrow> ([], Exited 2)
              | Some fetcher \<Rightarrow>
                  (case GetDatabaseName fetcher of
                     (dbName, Some err) \<Rightarrow> ([CallGetDatabaseName], Returned (Some err))
                   | (dbName, None) \<Rightarrow>
                       if dbName = [] then
                         ([CallGetDatabaseName],
                          Returned (Some (Error (runes ''no database selected''))))
                       else
                         (let buf = baseUnitHead dbName;
                              (log1, opts1, err1) =
                                (if length (tableNames opts) = 0 then
                                   ([CallGetDatabaseName, CallGetTableNames],
                                    opts\<lparr>tableNames := fst (GetTableNames fetcher)\<rparr>,
                                    snd (GetTableNames fetcher))
                                 else ([CallGetDatabaseName], opts, None))
                          in case err1 of
                               Some err \<Rightarrow> (log1, Returned (Some err))
                             | None \<Rightarrow>
                                 (case generateGetTable L buf opts1 of
                                    None \<Rightarrow> (log1, Panicked)
                                  | Some buf' \<Rightarrow>
                                      (case WriteToFile W buf'
                                              (baseUnitPath (outputPath F)) True log1 of
                                         (log2, Some err) \<Rightarrow> (log2, Returned (Some err))
                                       | (log2, None) \<Rightarrow>
                                           generateTables L W (outputPath F) fetcher dbName
                                             (tableNames opts1) (forceCases opts1) log2)))))))"

subsection \<open>The version guard, and what it means to the Go compiler\<close>

text \<open>
  The base unit declares the guard type (line 199) and two constants (lines 202 and 203)
  that convert to it the difference of the runtime's version and the generator's, and
  the opposite difference. Go compiles the conversion of an integer constant to an
  integer type only if the value is representable in the type. The ranges of Go's sized
  integer types, by name:
\<close>

definition goIntegerRange :: "gostring \<Rightarrow> (int \<times> int) option" where
  "goIntegerRange typeName =
     (if typeName = runes ''uint8'' then Some (0, 2 ^ 8 - 1)
      else if typeName = runes ''uint16'' then Some (0, 2 ^ 16 - 1)
      else if typeName = runes ''uint32'' then Some (0, 2 ^ 32 - 1)
      else if typeName = runes ''uint64'' then Some (0, 2 ^ 64 - 1)
      else if typeName = runes ''int8'' then Some (- (2 ^ 7), 2 ^ 7 - 1)
      else if typeName = runes ''int16'' then Some (- (2 ^ 15), 2 ^ 15 - 1)
      else if typeName = runes ''int32'' then Some (- (2 ^ 31), 2 ^ 31 - 1)
      else if typeName = runes ''int64'' then Some (- (2 ^ 63), 2 ^ 63 - 1)
      else None)"

definition constantConverts :: "gostring \<Rightarrow> int \<Rightarrow> bool" where
  "constantConverts typeName v =
     (case goIntegerRange typeName of
        None \<Rightarrow> False
      | Some (lo, hi) \<Rightarrow> lo \<le> v \<and> v \<le> hi)"

text \<open>
  Whether the two constant declarations of the guard compile, for a guard type, the
  version the generator wrote and the version of the runtime.
\<close>

definition versionGuardCompiles :: "gostring \<Rightarrow> int \<Rightarrow> int \<Rightarrow> bool" where
  "versionGuardCompiles typeName generatorVersion runtimeVersion =
     (constantConverts typeName (runtimeVersion - generatorVersion)
      \<and> constantConverts typeName (generatorVersion - runtimeVersion))"

section \<open>Vocabulary of the properties\<close>

text \<open>What a run has handed to the sink: path and content of each file, in order.\<close>

fun filesWritten :: "event list \<Rightarrow> (gostring \<times> gostring) list" where
  "filesWritten [] = []"
| "filesWritten (FileWritten path content # log) = (path, content) # filesWritten log"
| "filesWritten (e # log) = filesWritten log"

text \<open>Whether a run has asked the fetcher for the table names.\<close>

fun askedTableNames :: "event list \<Rightarrow> bool" where
  "askedTableNames [] = False"
| "askedTableNames (CallGetTableNames # log) = True"
| "askedTableNames (e # log) = askedTableNames log"

text \<open>
  The wrapper-type name of a column of a table, from the raw names: the table's
  normalized identifier (line 269), the column's (line 282), and line 295.
\<close>

definition wrapperTypeName ::
    "stdlib \<Rightarrow> gostring list \<Rightarrow> gostring \<Rightarrow> fieldDescriptor \<Rightarrow> gostring option" where
  "wrapperTypeName L fcs tableName fd =
     (case convertToExportedIdentifier L tableName fcs of
        None \<Rightarrow> None
      | Some className \<Rightarrow>
          (case convertToExportedIdentifier L (Name fd) fcs of
             None \<Rightarrow> None
           | Some goName \<Rightarrow> Some (fieldStructNameOf L fd className goName)))"

text \<open>
  What one column contributes to the model record and to the value sequence of
  \<^verbatim>\<open>GetValues\<close>: its field declaration (with its comment line) and its value
  expression, both under the column's normalized name.
\<close>

definition goNameOf :: "stdlib \<Rightarrow> gostring list \<Rightarrow> fieldDescriptor \<Rightarrow> gostring" where
  "goNameOf L fcs fd =
     (case convertToExportedIdentifier L (Name fd) fcs of None \<Rightarrow> [] | Some goName \<Rightarrow> goName)"

definition modelFieldOf :: "stdlib \<Rightarrow> gostring list \<Rightarrow> fieldDescriptor \<Rightarrow> gostring" where
  "modelFieldOf L fcs fd =
     commentLineOf fd @ TAB @ goNameOf L fcs fd @ runes '' '' @ fst (getType L fd) @ NL"

definition valueOf :: "stdlib \<Rightarrow> gostring list \<Rightarrow> fieldDescriptor \<Rightarrow> gostring" where
  "valueOf L fcs fd = runes ''m.'' @ goNameOf L fcs fd @ runes '', ''"

text \<open>
  A Go identifier is a letter followed by letters and digits, where the underscore counts
  as a letter; it is exported when its first rune is an upper-case letter.
\<close>

definition validExportedIdentifier :: "stdlib \<Rightarrow> gostring \<Rightarrow> bool" where
  "validExportedIdentifier L ident =
     (case ident of
        [] \<Rightarrow> False
      | r # rs \<Rightarrow>
          IsUpper L r \<and> IsLetter L r
          \<and> list_all (\<lambda>x. IsLetter L x \<or> x = 95 \<or> IsDigit L x) rs)"

text \<open>
  Facts of the Unicode tables that the properties of the normalizer rest on: E is an
  upper-case letter; an upper-case rune is a letter and is its own upper case; the upper
  case of a letter or digit is a letter or digit.
\<close>

definition caseTablesRegular :: "stdlib \<Rightarrow> bool" where
  "caseTablesRegular L =
     (IsUpper L 69
      \<and> (\<forall>r. IsUpper L r \<longrightarrow> IsLetter L r \<and> ToUpper L r = r)
      \<and> (\<forall>r. alnum L r \<longrightarrow> alnum L (ToUpper L r)))"

text \<open>The underscore is neither a letter nor a digit, and it folds to nothing else.\<close>

definition underscoreApart :: "stdlib \<Rightarrow> bool" where
  "underscoreApart L = (\<not> alnum L 95 \<and> (\<forall>r. equalFoldRune L r 95 \<longrightarrow> r = 95))"

text \<open>
  No entry of \<open>forceCases\<close> that holds a rune other than a letter or digit
  case-insensitively equals a word of letters and digits.
\<close>

definition foldsOnlyAlnum :: "stdlib \<Rightarrow> gostring list \<Rightarrow> bool" where
  "foldsOnlyAlnum L fcs =
     (\<forall>c \<in> set fcs. \<forall>w. list_all (alnum L) w \<and> EqualFold L w c \<longrightarrow> list_all (alnum L) c)"

subsection \<open>A small database, for concrete runs\<close>

text \<open>
  The schema of the specification's end-to-end scenarios: a database with the tables
  \<open>orders\<close> and \<open>users\<close>, read through a fetcher that quotes with backticks.
\<close>

definition orders_columns :: "fieldDescriptor list" where
  "orders_columns =
     [\<lparr> Name = runes ''id'', Type = runes ''bigint'', Size = 20, Unsigned = False,
         AllowNull = False, Comment = [] \<rparr>,
      \<lparr> Name = runes ''total'', Type = runes ''decimal'', Size = 10, Unsigned = False,
         AllowNull = False, Comment = [] \<rparr>,
      \<lparr> Name = runes ''note'', Type = runes ''varchar'', Size = 255, Unsigned = False,
         AllowNull = True, Comment = runes ''free text'' \<rparr>]"

definition users_columns :: "fieldDescriptor list" where
  "users_columns =
     [\<lparr> Name = runes ''id'', Type = runes ''BIGINT'', Size = 20, Unsigned = True,
         AllowNull = False, Comment = [] \<rparr>,
      \<lparr> Name = runes ''user_name'', Type = runes ''VarChar'', Size = 64, Unsigned = False,
         AllowNull = False, Comment = [] \<rparr>]"

text \<open>A table outside the schema, with a column of a type no family knows.\<close>

definition sessions_columns :: "fieldDescriptor list" where
  "sessions_columns =
     [\<lparr> Name = runes ''token'', Type = runes ''uuid'', Size = 0, Unsigned = False,
         AllowNull = True, Comment = [] \<rparr>]"

definition shop_fetcher :: schemaFetcher where
  "shop_fetcher =
     \<lparr> GetDatabaseName = (runes ''shop'', None),
       GetTableNames = ([runes ''orders'', runes ''users''], None),
       GetFieldDescriptors =
         (\<lambda>t. if t = runes ''orders'' then (orders_columns, None)
              else if t = runes ''users'' then (users_columns, None)
              else if t = runes ''sessions'' then (sessions_columns, None)
              else ([], Some (Error (runes ''no such table'')))),
       QuoteIdentifier = (\<lambda>s. [96] @ s @ [96]) \<rparr>"

definition shop_world :: world where
  "shop_world =
     \<lparr> sql_Open = (\<lambda>driverName dataSourceName. None),
       newMySQLSchemaFetcher = shop_fetcher,
       newSQLite3SchemaFetcher = shop_fetcher,
       newPostgresSchemaFetcher = shop_fetcher,
       os_Stat = (\<lambda>path. StatNotExist),
       Scanln = [],
       os_OpenFile = (\<lambda>path. None) \<rparr>"

definition shop_flags :: flags where
  "shop_flags =
     \<lparr> outputPath = runes ''out'', databaseConnection = runes ''user:pw@/shop'',
       tables = runes ''orders'', forcecases = [] \<rparr>"

section \<open>Properties of the normalizer\<close>

lemma update_last_snoc:
  "(ws @ [w])[length (ws @ [w]) - 1 := (ws @ [w]) ! (length (ws @ [w]) - 1) @ [r]]
     = ws @ [w @ [r]]"
  by simp

lemma scanWords_runs:
  "scanWords L s ws True = Some (ws @ map (spec_capitalize L) (spec_runs (alnum L) s))"
  "scanWords L s (ws @ [w]) False
     = Some (ws @ [w @ takeWhile (alnum L) s]
               @ map (spec_capitalize L) (spec_runs (alnum L) (dropWhile (alnum L) s)))"
proof (induction s arbitrary: ws w)
  case Nil
  { case 1 show ?case by simp }
  { case 2 show ?case by simp }
next
  case (Cons r s)
  { case 1
    show ?case
    proof (cases "alnum L r")
      case True
      have "scanWords L (r # s) ws True = scanWords L s (ws @ [[ToUpper L r]]) False"
        using True by (simp add: alnum_def)
      also have "\<dots> = Some (ws @ [[ToUpper L r] @ takeWhile (alnum L) s]
               @ map (spec_capitalize L) (spec_runs (alnum L) (dropWhile (alnum L) s)))"
        by (rule Cons.IH(2))
      finally show ?thesis using True by (simp add: spec_capitalize_def)
    next
      case False
      then show ?thesis using Cons.IH(1) by (simp add: alnum_def)
    qed }
  { case 2
    show ?case
    proof (cases "alnum L r")
      case True
      have "scanWords L (r # s) (ws @ [w]) False = scanWords L s (ws @ [w @ [r]]) False"
        using True update_last_snoc [of ws w r] by (simp add: alnum_def)
      also have "\<dots> = Some (ws @ [(w @ [r]) @ takeWhile (alnum L) s]
               @ map (spec_capitalize L) (spec_runs (alnum L) (dropWhile (alnum L) s)))"
        by (rule Cons.IH(2))
      finally show ?thesis using True by simp
    next
      case False
      have "scanWords L (r # s) (ws @ [w]) False = scanWords L s (ws @ [w]) True"
        using False by (simp add: alnum_def)
      also have "\<dots> = Some ((ws @ [w]) @ map (spec_capitalize L) (spec_runs (alnum L) s))"
        by (rule Cons.IH(1))
      finally show ?thesis using False by simp
    qed }
qed

lemma forceCase_spec: "forceCase L w fc = spec_force L fc w"
  by (induction fc) (simp_all add: spec_force_def)

lemma joinWords_concat:
  "joinWords L ws fc acc = acc @ concat (map (spec_force L fc) ws)"
  by (induction ws arbitrary: acc) (simp_all add: forceCase_spec)

lemma convert_spec:
  "convertToExportedIdentifier L s fc = Some (addSentinel L (concat (spec_words L s fc)))"
  using scanWords_runs(1) [of L s "[]"]
  by (simp add: convertToExportedIdentifier_def joinWords_concat spec_words_def)

text \<open>
  C1. For every raw name and every \<open>forceCases\<close> list, \<^verbatim>\<open>convertToExportedIdentifier\<close>
  returns (it never panics), and what it returns is built as the specification says:
  the input is split into maximal runs of letters and digits, the first rune of each run
  is upper-cased and the rest kept, a run that case-insensitively equals a \<open>forceCases\<close>
  entry is replaced by the first such entry, and the runs are concatenated with no
  separator (the sentinel step of C7 then applies to the concatenation). On the ASCII
  tables, \<open>user_id\<close> gives \<open>UserId\<close>, and \<open>UserID\<close> with \<open>forceCases = [ID]\<close>.
\<close>

theorem normalize_splits_capitalizes_forces_concatenates:
  "convertToExportedIdentifier L s fc
     = Some (addSentinel L (concat
         (map (spec_force L fc)
           (map (spec_capitalize L) (spec_runs (alnum L) s)))))
   \<and> convertToExportedIdentifier ascii (runes ''user_id'') [] = Some (runes ''UserId'')
   \<and> convertToExportedIdentifier ascii (runes ''user_id'') [runes ''ID'']
       = Some (runes ''UserID'')"
proof (intro conjI)
  show "convertToExportedIdentifier L s fc
     = Some (addSentinel L (concat
         (map (spec_force L fc)
           (map (spec_capitalize L) (spec_runs (alnum L) s)))))"
    using convert_spec [of L s fc] by (simp add: spec_words_def)
  show "convertToExportedIdentifier ascii (runes ''user_id'') [] = Some (runes ''UserId'')"
    by (simp add: convertToExportedIdentifier_def addSentinel_def firstRuneOf_def
        runes_def ascii_def)
  show "convertToExportedIdentifier ascii (runes ''user_id'') [runes ''ID'']
       = Some (runes ''UserID'')"
    by (simp add: convertToExportedIdentifier_def addSentinel_def firstRuneOf_def
        runes_def ascii_def equalFoldRune_def)
qed

section \<open>Properties of the type mapper\<close>

lemma switch_None_iff:
  "getTypeSwitch L fd = None \<longleftrightarrow> strings_ToLower L (Type fd) \<notin> set recognizedTypes"
  unfolding getTypeSwitch_def recognizedTypes_def Let_def
  by simp

lemma switch_Some_base:
  "getTypeSwitch L fd = Some b \<Longrightarrow> b \<in> set baseTypes"
  unfolding getTypeSwitch_def Let_def baseTypes_def
  by (simp split: if_splits)

lemma baseTypes_nonempty:
  "(t, c) \<in> set baseTypes \<Longrightarrow> t \<noteq> [] \<and> c \<in> set fieldCategories"
  by (auto simp: baseTypes_def fieldCategories_def runes_def)

lemma HasPrefix_int_base:
  assumes "(t, c) \<in> set baseTypes"
  shows "HasPrefix t (runes ''int'') \<longleftrightarrow> t \<in> set integerTypes"
proof -
  from assms have "t \<in> set (map fst baseTypes)"
    by force
  then have "t = runes ''int8'' \<or> t = runes ''int16'' \<or> t = runes ''int32''
      \<or> t = runes ''int64'' \<or> t = runes ''float64'' \<or> t = runes ''string''
      \<or> t = runes ''sqlingo.WellKnownBinary'' \<or> t = runes ''bool''"
    by (simp add: baseTypes_def)
  then show ?thesis
    by (elim disjE) (simp_all add: HasPrefix_def integerTypes_def runes_def)
qed

lemma unsignedVariant_integer:
  "t \<in> set integerTypes \<Longrightarrow> unsignedVariant t = runes ''u'' @ t"
  by (auto simp: integerTypes_def unsignedVariant_def runes_def)

text \<open>
  C2. For every column descriptor whose lower-cased raw type is one of the recognized
  type names, \<^verbatim>\<open>getType\<close> returns a non-empty scalar type and one of the four field
  categories, with a \<^verbatim>\<open>nil\<close> error; for every other descriptor it returns the error
  "unknown field type ..." and leaves both results empty: no partial or default type.
  Being a function of the descriptor, the result is determined by it.
\<close>

theorem getType_total_on_recognized_error_otherwise:
  "(strings_ToLower L (Type fd) \<in> set recognizedTypes \<longrightarrow>
      (\<exists>goType fieldClass. getType L fd = (goType, fieldClass, None)
         \<and> goType \<noteq> [] \<and> fieldClass \<in> set fieldCategories))
   \<and> (strings_ToLower L (Type fd) \<notin> set recognizedTypes \<longrightarrow>
      getType L fd = ([], [], Some (Error (runes ''unknown field type '' @ Type fd))))"
proof (intro conjI impI)
  assume "strings_ToLower L (Type fd) \<in> set recognizedTypes"
  then obtain t c where sw: "getTypeSwitch L fd = Some (t, c)"
    using switch_None_iff [of L fd] by (cases "getTypeSwitch L fd") auto
  then have "t \<noteq> []" "c \<in> set fieldCategories"
    using switch_Some_base [OF sw] baseTypes_nonempty by blast+
  then show "\<exists>goType fieldClass. getType L fd = (goType, fieldClass, None)
         \<and> goType \<noteq> [] \<and> fieldClass \<in> set fieldCategories"
    using sw by (simp add: getType_def Let_def)
next
  assume "strings_ToLower L (Type fd) \<notin> set recognizedTypes"
  then have "getTypeSwitch L fd = None"
    by (simp add: switch_None_iff)
  then show "getType L fd = ([], [], Some (Error (runes ''unknown field type '' @ Type fd)))"
    by (simp add: getType_def)
qed

lemma getType_goType:
  assumes "getType L fd = (goType, fieldClass, None)"
    and "getTypeSwitch L fd = Some (base, fieldClass')"
  shows "goType = (if AllowNull fd then runes ''*'' else [])
           @ (if Unsigned fd \<and> HasPrefix base (runes ''int'') then runes ''u'' else [])
           @ base"
    and "fieldClass' = fieldClass"
  using assms by (auto simp: getType_def Let_def)

text \<open>
  C3. Whenever \<^verbatim>\<open>getType\<close> succeeds, its scalar type is obtained from the type
  \<open>base\<close> of the family lookup in two steps: if the column is unsigned and \<open>base\<close>
  is an integer type it becomes the unsigned variant of the same width, otherwise it is
  unchanged; then, if the column is nullable, the result is wrapped as an optional,
  whatever the category. The family lookup itself does not read the two flags, so both
  steps come after it.
\<close>

theorem getType_unsigned_then_nullable:
  assumes "getType L fd = (goType, fieldClass, None)"
  shows "\<exists>base.
           getTypeSwitch L fd = Some (base, fieldClass)
         \<and> getTypeSwitch L (fd\<lparr>Unsigned := u, AllowNull := n\<rparr>) = getTypeSwitch L fd
         \<and> goType =
             (let adjusted = (if Unsigned fd \<and> base \<in> set integerTypes
                              then unsignedVariant base else base)
              in if AllowNull fd then optionalOf adjusted else adjusted)"
proof -
  from assms obtain base c where sw0: "getTypeSwitch L fd = Some (base, c)"
    by (cases "getTypeSwitch L fd") (auto simp: getType_def)
  with assms have "c = fieldClass"
    by (simp add: getType_goType(2))
  with sw0 have sw: "getTypeSwitch L fd = Some (base, fieldClass)"
    by simp
  have pre: "HasPrefix base (runes ''int'') \<longleftrightarrow> base \<in> set integerTypes"
    using switch_Some_base [OF sw] by (rule HasPrefix_int_base)
  have flags: "getTypeSwitch L (fd\<lparr>Unsigned := u, AllowNull := n\<rparr>) = getTypeSwitch L fd"
    by (simp add: getTypeSwitch_def)
  have g: "goType = (if AllowNull fd then runes ''*'' else [])
           @ (if Unsigned fd \<and> base \<in> set integerTypes then runes ''u'' else [])
           @ base"
    using getType_goType(1) [OF assms sw] pre by simp
  have "goType =
             (let adjusted = (if Unsigned fd \<and> base \<in> set integerTypes
                              then unsignedVariant base else base)
              in if AllowNull fd then optionalOf adjusted else adjusted)"
  proof (cases "Unsigned fd \<and> base \<in> set integerTypes")
    case True
    then show ?thesis
      using g by (simp add: Let_def optionalOf_def unsignedVariant_integer)
  next
    case False
    then have u: "(if Unsigned fd \<and> base \<in> set integerTypes then runes ''u'' else []) = []"
      by (rule if_not_P)
    from False have "(if Unsigned fd \<and> base \<in> set integerTypes
        then unsignedVariant base else base) = base"
      by (rule if_not_P)
    with g u show ?thesis
      by (simp add: Let_def optionalOf_def)
  qed
  with sw flags show ?thesis by blast
qed

theorem getType_total_on_recognized_error_otherwise_witness:
  "getType ascii (hd users_columns) = (runes ''uint64'', runes ''NumberField'', None)
   \<and> (\<exists>goType fieldClass. getType ascii (hd users_columns) = (goType, fieldClass, None)
         \<and> goType \<noteq> [] \<and> fieldClass \<in> set fieldCategories)
   \<and> getType ascii (hd sessions_columns)
       = ([], [], Some (Error (runes ''unknown field type uuid'')))"
proof -
  have a: "strings_ToLower ascii (Type (hd users_columns)) \<in> set recognizedTypes"
    by (simp add: users_columns_def strings_ToLower_def ascii_def runes_def
        recognizedTypes_def)
  have b: "strings_ToLower ascii (Type (hd sessions_columns)) \<notin> set recognizedTypes"
    by (simp add: sessions_columns_def strings_ToLower_def ascii_def runes_def
        recognizedTypes_def)
  have c: "runes ''unknown field type '' @ Type (hd sessions_columns)
      = runes ''unknown field type uuid''"
    by (simp add: sessions_columns_def runes_def)
  have d: "getType ascii (hd users_columns) = (runes ''uint64'', runes ''NumberField'', None)"
    by (simp add: getType_def getTypeSwitch_def users_columns_def strings_ToLower_def
        ascii_def runes_def HasPrefix_def)
  show ?thesis
    using getType_total_on_recognized_error_otherwise [of ascii "hd users_columns"]
      getType_total_on_recognized_error_otherwise [of ascii "hd sessions_columns"] a b c d
    by simp
qed

theorem getType_unsigned_then_nullable_witness:
  "getType ascii (hd users_columns) = (runes ''uint64'', runes ''NumberField'', None)
   \<and> (\<exists>base. getTypeSwitch ascii (hd users_columns) = Some (base, runes ''NumberField'')
        \<and> runes ''uint64'' =
             (let adjusted = (if Unsigned (hd users_columns) \<and> base \<in> set integerTypes
                              then unsignedVariant base else base)
              in if AllowNull (hd users_columns) then optionalOf adjusted else adjusted))"
proof -
  have a: "getType ascii (hd users_columns) = (runes ''uint64'', runes ''NumberField'', None)"
    by (simp add: getType_def getTypeSwitch_def users_columns_def strings_ToLower_def
        ascii_def runes_def HasPrefix_def)
  show ?thesis
    using getType_unsigned_then_nullable [OF a] a by blast
qed

section \<open>More properties of the normalizer\<close>

lemma spec_runs_member:
  "w \<in> set (spec_runs p s) \<Longrightarrow> w \<noteq> [] \<and> list_all p w"
proof (induction p s rule: spec_runs.induct)
  case (1 p)
  then show ?case by simp
next
  case (2 p r s)
  show ?case
  proof (cases "p r")
    case True
    with 2 show ?thesis
      by (auto simp: list_all_iff dest: set_takeWhileD)
  next
    case False
    with 2 show ?thesis by simp
  qed
qed

lemma spec_runs_no_match:
  "list_all (\<lambda>r. \<not> p r) s \<Longrightarrow> spec_runs p s = []"
  by (induction s) simp_all

lemma spec_runs_single:
  assumes "s \<noteq> []" and "list_all p s"
  shows "spec_runs p s = [s]"
proof -
  from assms obtain r s' where s: "s = r # s'" and r: "p r" and s': "list_all p s'"
    by (cases s) auto
  from s' have t: "takeWhile p s' = s'" and d: "dropWhile p s' = []"
    by (simp_all add: list_all_iff)
  show ?thesis
    unfolding s using r by (simp add: t d)
qed

lemma spec_force_cases:
  "spec_force L fc w = w \<or> (spec_force L fc w \<in> set fc \<and> EqualFold L w (spec_force L fc w))"
  unfolding forceCase_spec [symmetric]
  by (induction fc) auto

lemma spec_capitalize_all:
  assumes "w \<noteq> []" and "list_all (alnum L) w"
    and A: "\<And>r. alnum L r \<Longrightarrow> P r" and U: "\<And>r. alnum L r \<Longrightarrow> P (ToUpper L r)"
  shows "list_all P (spec_capitalize L w)"
  using assms by (cases w) (auto simp: spec_capitalize_def list_all_iff)

lemma spec_words_all:
  assumes A: "\<And>r. alnum L r \<Longrightarrow> P r" and U: "\<And>r. alnum L r \<Longrightarrow> P (ToUpper L r)"
    and F: "\<And>w c. c \<in> set fc \<Longrightarrow> EqualFold L w c \<Longrightarrow> list_all P w \<Longrightarrow> list_all P c"
    and w: "w \<in> set (spec_words L s fc)"
  shows "list_all P w"
proof -
  from w obtain v where v: "v \<in> set (spec_runs (alnum L) s)"
    and wv: "w = spec_force L fc (spec_capitalize L v)"
    by (auto simp: spec_words_def)
  from v have "v \<noteq> []" and "list_all (alnum L) v"
    using spec_runs_member by blast+
  then have c: "list_all P (spec_capitalize L v)"
    using A U by (rule spec_capitalize_all)
  from spec_force_cases [of L fc "spec_capitalize L v"] show ?thesis
  proof
    assume "spec_force L fc (spec_capitalize L v) = spec_capitalize L v"
    with c wv show ?thesis by simp
  next
    assume "spec_force L fc (spec_capitalize L v) \<in> set fc
      \<and> EqualFold L (spec_capitalize L v) (spec_force L fc (spec_capitalize L v))"
    with c wv F show ?thesis by blast
  qed
qed

lemma concat_spec_words_all:
  assumes "\<And>r. alnum L r \<Longrightarrow> P r" and "\<And>r. alnum L r \<Longrightarrow> P (ToUpper L r)"
    and "\<And>w c. c \<in> set fc \<Longrightarrow> EqualFold L w c \<Longrightarrow> list_all P w \<Longrightarrow> list_all P c"
  shows "list_all P (concat (spec_words L s fc))"
proof -
  have "\<forall>w \<in> set (spec_words L s fc). list_all P w"
    using spec_words_all [of L P fc _ s] assms by blast
  then show ?thesis
    by (auto simp: list_all_iff)
qed

lemma addSentinel_all:
  "P 69 \<Longrightarrow> list_all P c \<Longrightarrow> list_all P (addSentinel L c)"
  by (simp add: addSentinel_def runes_def)

lemma addSentinel_first:
  "IsUpper L 69 \<Longrightarrow> addSentinel L c \<noteq> [] \<and> IsUpper L (firstRuneOf (addSentinel L c))"
  by (cases c) (simp_all add: addSentinel_def runes_def firstRuneOf_def)

lemma regular_alnum_E: "caseTablesRegular L \<Longrightarrow> alnum L 69"
  by (simp add: caseTablesRegular_def alnum_def)

lemma regular_upper: "caseTablesRegular L \<Longrightarrow> alnum L r \<Longrightarrow> alnum L (ToUpper L r)"
  by (simp add: caseTablesRegular_def)

lemma convert_alnum:
  assumes reg: "caseTablesRegular L" and safe: "foldsOnlyAlnum L fc"
  shows "list_all (alnum L) (addSentinel L (concat (spec_words L s fc)))"
proof -
  have F: "\<And>w c. c \<in> set fc \<Longrightarrow> EqualFold L w c \<Longrightarrow> list_all (alnum L) w
      \<Longrightarrow> list_all (alnum L) c"
    using safe unfolding foldsOnlyAlnum_def by blast
  have "list_all (alnum L) (concat (spec_words L s fc))"
    by (rule concat_spec_words_all) (use reg F in \<open>auto intro: regular_upper\<close>)
  with regular_alnum_E [OF reg] show ?thesis
    by (rule addSentinel_all)
qed

lemma ascii_regular: "caseTablesRegular ascii"
  by (auto simp: caseTablesRegular_def ascii_def alnum_def)

lemma valid_of_alnum:
  assumes reg: "caseTablesRegular L" and "ident \<noteq> []" and "IsUpper L (firstRuneOf ident)"
    and "list_all (alnum L) ident"
  shows "validExportedIdentifier L ident"
proof -
  from assms obtain r rs where i: "ident = r # rs" by (cases ident) auto
  with assms have "IsUpper L r" by (simp add: firstRuneOf_def)
  moreover from this reg have "IsLetter L r" by (simp add: caseTablesRegular_def)
  moreover from assms(4) i have "list_all (\<lambda>x. IsLetter L x \<or> x = 95 \<or> IsDigit L x) rs"
    by (auto simp: list_all_iff alnum_def)
  ultimately show ?thesis using i by (simp add: validExportedIdentifier_def)
qed

text \<open>
  C7 (amended). For every input and every \<open>forceCases\<close> list the normalizer returns
  an identifier. It is the concatenation of the words, with the sentinel letter E put in
  front exactly when that concatenation is empty or does not start with an upper-case
  rune. So it is never empty; it is the sentinel alone when the input holds no letter or
  digit (the empty string included); and, E being upper-case, it starts with an upper-case
  rune. It is a syntactically valid exported identifier whenever, in addition, the case
  tables are regular and no \<open>forceCases\<close> entry that holds a rune other than a letter
  or digit case-insensitively equals a word of letters and digits.
\<close>

theorem normalize_sentinel:
  "\<exists>ident. convertToExportedIdentifier L s fc = Some ident
     \<and> ident = (let c = concat (spec_words L s fc)
                in if c = [] \<or> \<not> IsUpper L (firstRuneOf c) then runes ''E'' @ c else c)
     \<and> ident \<noteq> []
     \<and> (list_all (\<lambda>r. \<not> alnum L r) s \<longrightarrow> ident = runes ''E'')
     \<and> (IsUpper L 69 \<longrightarrow> IsUpper L (firstRuneOf ident))
     \<and> (caseTablesRegular L \<and> foldsOnlyAlnum L fc \<longrightarrow> validExportedIdentifier L ident)"
proof -
  let ?c = "concat (spec_words L s fc)"
  let ?ident = "addSentinel L ?c"
  have 1: "convertToExportedIdentifier L s fc = Some ?ident"
    by (rule convert_spec)
  have 2: "?ident = (let c = ?c
                      in if c = [] \<or> \<not> IsUpper L (firstRuneOf c) then runes ''E'' @ c else c)"
    by (simp add: addSentinel_def Let_def)
  have 3: "?ident \<noteq> []"
    by (simp add: addSentinel_def runes_def)
  have 4: "list_all (\<lambda>r. \<not> alnum L r) s \<longrightarrow> ?ident = runes ''E''"
    by (simp add: spec_runs_no_match spec_words_def addSentinel_def)
  have 5: "IsUpper L 69 \<longrightarrow> IsUpper L (firstRuneOf ?ident)"
    using addSentinel_first [of L ?c] by simp
  have 6: "caseTablesRegular L \<and> foldsOnlyAlnum L fc \<longrightarrow> validExportedIdentifier L ?ident"
  proof
    assume a: "caseTablesRegular L \<and> foldsOnlyAlnum L fc"
    then have "list_all (alnum L) ?ident"
      by (simp add: convert_alnum)
    moreover from a have "IsUpper L 69"
      by (simp add: caseTablesRegular_def)
    ultimately show "validExportedIdentifier L ?ident"
      using a 3 5 by (simp add: valid_of_alnum)
  qed
  from 1 2 3 4 5 6 show ?thesis by blast
qed

text \<open>
  Without the condition on \<open>forceCases\<close> the result need not be an identifier: the
  combining mark U+0345 case-insensitively equals the Greek capital iota, so the entry
  U+0345 replaces the word and the result is E followed by a nonspacing mark.
\<close>

theorem normalize_sentinel_counterexample:
  "convertToExportedIdentifier ascii_iota [0x399] [[0x345]] = Some [69, 0x345]
   \<and> \<not> validExportedIdentifier ascii_iota [69, 0x345]"
  by (simp add: convertToExportedIdentifier_def addSentinel_def firstRuneOf_def
      validExportedIdentifier_def equalFoldRune_def runes_def ascii_iota_def ascii_def)

theorem normalize_sentinel_witness:
  "convertToExportedIdentifier ascii (runes ''1st_place'') [] = Some (runes ''E1stPlace'')
   \<and> validExportedIdentifier ascii (runes ''E1stPlace'')
   \<and> convertToExportedIdentifier ascii (runes ''_ - '') [runes ''ID''] = Some (runes ''E'')"
proof -
  have a: "convertToExportedIdentifier ascii (runes ''1st_place'') [] = Some (runes ''E1stPlace'')"
    by (simp add: convertToExportedIdentifier_def addSentinel_def firstRuneOf_def
        runes_def ascii_def)
  have b: "foldsOnlyAlnum ascii []"
    by (simp add: foldsOnlyAlnum_def)
  have c: "list_all (\<lambda>r. \<not> alnum ascii r) (runes ''_ - '')"
    by (simp add: alnum_def ascii_def runes_def)
  show ?thesis
    using normalize_sentinel [of ascii "runes ''1st_place''" "[]"]
      normalize_sentinel [of ascii "runes ''_ - ''" "[runes ''ID'']"] a b c ascii_regular
    by auto
qed

text \<open>
  C10 (amended). For every input string, and for every \<open>forceCases\<close> list in which no
  entry that holds a rune other than a letter or digit case-insensitively equals a word
  of letters and digits, the output of \<^verbatim>\<open>convertToExportedIdentifier\<close> consists of
  letters and digits only (given regular case tables).
\<close>

theorem normalize_output_alnum:
  assumes "caseTablesRegular L" and "foldsOnlyAlnum L fc"
  shows "\<exists>ident. convertToExportedIdentifier L s fc = Some ident \<and> list_all (alnum L) ident"
  using convert_spec [of L s fc] convert_alnum [OF assms, of s] by simp

text \<open>
  The condition cannot be dropped: Unicode simple case folding puts the nonspacing mark
  U+0345 in one class with the Greek iota, so for the input U+03B9 (a letter) and the
  \<open>forceCases\<close> entry U+0345 the output ends in a rune that is neither letter nor digit.
\<close>

theorem normalize_output_alnum_counterexample:
  "convertToExportedIdentifier ascii_iota [0x3B9] [[0x345]] = Some [69, 0x345]
   \<and> \<not> alnum ascii_iota 0x345
   \<and> list_all (alnum ascii_iota) [0x3B9]"
  by (simp add: convertToExportedIdentifier_def addSentinel_def firstRuneOf_def
      alnum_def equalFoldRune_def runes_def ascii_iota_def ascii_def)

lemma foldsOnlyAlnum_of_alnum:
  "list_all (list_all (alnum L)) fc \<Longrightarrow> foldsOnlyAlnum L fc"
  by (auto simp: foldsOnlyAlnum_def list_all_iff)

lemma EqualFold_alnum:
  "(\<And>sr tr. equalFoldRune L sr tr \<Longrightarrow> alnum L sr \<Longrightarrow> alnum L tr) \<Longrightarrow>
     EqualFold L w c \<Longrightarrow> list_all (alnum L) w \<Longrightarrow> list_all (alnum L) c"
proof (induction L w c rule: EqualFold.induct)
  case (1 L t)
  then show ?case by simp
next
  case (2 L sr s)
  then show ?case by simp
next
  case (3 L sr s tr t)
  from "3.prems"(2) have r: "equalFoldRune L sr tr" and rest: "EqualFold L s t"
    by (simp_all split: if_splits)
  from "3.prems"(3) have sr: "alnum L sr" and s: "list_all (alnum L) s"
    by simp_all
  from "3.prems"(1) r sr have "alnum L tr"
    by blast
  moreover have "list_all (alnum L) t"
    using "3.IH" [OF r] "3.prems"(1) rest s by blast
  ultimately show ?case by simp
qed

lemma ascii_fold_rune: "equalFoldRune ascii sr tr \<Longrightarrow> alnum ascii sr \<Longrightarrow> alnum ascii tr"
  by (auto simp: equalFoldRune_def alnum_def ascii_def split: if_splits)

lemma ascii_foldsOnlyAlnum: "foldsOnlyAlnum ascii fc"
  using EqualFold_alnum [of ascii, OF ascii_fold_rune] by (auto simp: foldsOnlyAlnum_def)

lemma foldsOnlyAlnum_ID: "foldsOnlyAlnum ascii [runes ''ID'']"
  by (rule ascii_foldsOnlyAlnum)

theorem normalize_output_alnum_witness:
  "convertToExportedIdentifier ascii (runes ''user-id 2'') [runes ''ID'', runes ''a-b'']
     = Some (runes ''UserID2'')
   \<and> list_all (alnum ascii) (runes ''UserID2'')"
proof -
  have a: "convertToExportedIdentifier ascii (runes ''user-id 2'') [runes ''ID'', runes ''a-b'']
      = Some (runes ''UserID2'')"
    by (simp add: convertToExportedIdentifier_def addSentinel_def firstRuneOf_def
        equalFoldRune_def runes_def ascii_def)
  show ?thesis
    using normalize_output_alnum [OF ascii_regular
        ascii_foldsOnlyAlnum [of "[runes ''ID'', runes ''a-b'']"], of "runes ''user-id 2''"] a
    by simp
qed

lemma EqualFold_length: "EqualFold L w c \<Longrightarrow> length c = length w"
  by (induction L w c rule: EqualFold.induct) (simp_all split: if_splits)

lemma addSentinel_cases: "addSentinel L c = c \<or> addSentinel L c = 69 # c"
  by (simp add: addSentinel_def runes_def)

lemma renormalize:
  assumes reg: "caseTablesRegular L" and safe: "foldsOnlyAlnum L fc"
    and out: "convertToExportedIdentifier L s fc = Some ident"
  shows "convertToExportedIdentifier L ident fc = Some (addSentinel L (forceCase L ident fc))"
    and "ident \<noteq> []" and "IsUpper L (firstRuneOf ident)"
proof -
  have id: "ident = addSentinel L (concat (spec_words L s fc))"
    using out convert_spec [of L s fc] by simp
  have up: "IsUpper L 69"
    using reg by (simp add: caseTablesRegular_def)
  show ne: "ident \<noteq> []" and first: "IsUpper L (firstRuneOf ident)"
    using addSentinel_first [OF up] id by simp_all
  have al: "list_all (alnum L) ident"
    using convert_alnum [OF reg safe] id by simp
  from ne obtain r rs where i: "ident = r # rs" by (cases ident) auto
  with first have "IsUpper L r" by (simp add: firstRuneOf_def)
  with reg have "ToUpper L r = r" by (simp add: caseTablesRegular_def)
  with i have cap: "spec_capitalize L ident = ident"
    by (simp add: spec_capitalize_def)
  have "spec_words L ident fc = [forceCase L ident fc]"
    using spec_runs_single [OF ne al] cap by (simp add: spec_words_def forceCase_spec)
  then show "convertToExportedIdentifier L ident fc
      = Some (addSentinel L (forceCase L ident fc))"
    using convert_spec [of L ident fc] by simp
qed

text \<open>
  C8 (amended). For every input and every \<open>forceCases\<close> list (in which no entry that
  holds a rune other than a letter or digit case-insensitively equals a word of letters
  and digits, as in C10), normalizing the output of the normalizer again, with the same
  \<open>forceCases\<close>, returns it unchanged exactly when case forcing leaves the output
  unchanged: the first \<open>forceCases\<close> entry that case-insensitively equals the output,
  if there is one, is the output itself. So the normalizer is idempotent for an empty
  \<open>forceCases\<close> list (re-normalizing \<open>UserId\<close> yields \<open>UserId\<close>) and wherever the
  output is itself the entry that matches it (\<open>id\<close> with the entry \<open>ID\<close>), and not
  otherwise.
\<close>

theorem normalize_idempotent:
  assumes reg: "caseTablesRegular L" and safe: "foldsOnlyAlnum L fc"
    and out: "convertToExportedIdentifier L s fc = Some ident"
  shows "convertToExportedIdentifier L ident fc = Some ident
           \<longleftrightarrow> forceCase L ident fc = ident"
proof
  assume fixed: "forceCase L ident fc = ident"
  from renormalize [OF reg safe out] fixed show "convertToExportedIdentifier L ident fc = Some ident"
    by (simp add: addSentinel_def)
next
  assume again: "convertToExportedIdentifier L ident fc = Some ident"
  let ?c = "forceCase L ident fc"
  from renormalize(1) [OF reg safe out] again have eq: "addSentinel L ?c = ident"
    by simp
  show "?c = ident"
  proof (rule ccontr)
    assume differ: "?c \<noteq> ident"
    with spec_force_cases [of L fc ident] have "EqualFold L ident ?c"
      by (simp add: forceCase_spec)
    then have len: "length ?c = length ident"
      by (rule EqualFold_length)
    from addSentinel_cases [of L ?c] eq differ have "ident = 69 # ?c"
      by auto
    then have "length ident = length (69 # ?c)"
      by (rule arg_cong)
    with len show False by simp
  qed
qed

text \<open>
  Stated for every \<open>forceCases\<close> list, the property fails: with the entry \<open>UserID\<close> the name
  \<open>user_id\<close> normalizes to \<open>UserId\<close> (no single word equals the entry), and
  \<open>UserId\<close> normalizes to \<open>UserID\<close> (now the whole word does).
\<close>

theorem normalize_idempotent_counterexample:
  "convertToExportedIdentifier ascii (runes ''user_id'') [runes ''UserID'']
     = Some (runes ''UserId'')
   \<and> convertToExportedIdentifier ascii (runes ''UserId'') [runes ''UserID'']
     = Some (runes ''UserID'')
   \<and> runes ''UserID'' \<noteq> runes ''UserId''"
  by (simp add: convertToExportedIdentifier_def addSentinel_def firstRuneOf_def
      equalFoldRune_def runes_def ascii_def)

theorem normalize_idempotent_witness:
  "convertToExportedIdentifier ascii (runes ''UserId'') [] = Some (runes ''UserId'')
   \<and> convertToExportedIdentifier ascii (runes ''id'') [runes ''ID''] = Some (runes ''ID'')
   \<and> convertToExportedIdentifier ascii (runes ''ID'') [runes ''ID''] = Some (runes ''ID'')
   \<and> convertToExportedIdentifier ascii (runes ''user_id'') [runes ''UserID'']
       = Some (runes ''UserId'')
   \<and> convertToExportedIdentifier ascii (runes ''UserId'') [runes ''UserID'']
       \<noteq> Some (runes ''UserId'')"
proof -
  have a: "convertToExportedIdentifier ascii (runes ''user_id'') [] = Some (runes ''UserId'')"
    by (simp add: convertToExportedIdentifier_def addSentinel_def firstRuneOf_def
        equalFoldRune_def runes_def ascii_def)
  have b: "convertToExportedIdentifier ascii (runes ''id'') [runes ''ID''] = Some (runes ''ID'')"
    by (simp add: convertToExportedIdentifier_def addSentinel_def firstRuneOf_def
        equalFoldRune_def runes_def ascii_def)
  have c: "convertToExportedIdentifier ascii (runes ''user_id'') [runes ''UserID'']
      = Some (runes ''UserId'')"
    by (simp add: convertToExportedIdentifier_def addSentinel_def firstRuneOf_def
        equalFoldRune_def runes_def ascii_def)
  have fa: "forceCase ascii (runes ''UserId'') [] = runes ''UserId''"
    by simp
  have fb: "forceCase ascii (runes ''ID'') [runes ''ID''] = runes ''ID''"
    by (simp add: runes_def)
  have fc: "forceCase ascii (runes ''UserId'') [runes ''UserID''] \<noteq> runes ''UserId''"
    by (simp add: runes_def equalFoldRune_def ascii_def)
  show ?thesis
    using normalize_idempotent [OF ascii_regular ascii_foldsOnlyAlnum a]
      normalize_idempotent [OF ascii_regular ascii_foldsOnlyAlnum b]
      normalize_idempotent [OF ascii_regular ascii_foldsOnlyAlnum c] fa fb fc b c
    by simp
qed

section \<open>Properties of the wrapper-type names\<close>

lemma EqualFold_underscore:
  "underscoreApart L \<Longrightarrow> EqualFold L w c \<Longrightarrow> 95 \<in> set c \<Longrightarrow> 95 \<in> set w"
proof (induction L w c rule: EqualFold.induct)
  case (1 L t)
  then show ?case by simp
next
  case (2 L sr s)
  then show ?case by simp
next
  case (3 L sr s tr t)
  from "3.prems"(2) have r: "equalFoldRune L sr tr" and rest: "EqualFold L s t"
    by (simp_all split: if_splits)
  show ?case
  proof (cases "tr = 95")
    case True
    with r "3.prems"(1) have "sr = 95" by (auto simp: underscoreApart_def)
    then show ?thesis by simp
  next
    case False
    with "3.prems"(3) have "95 \<in> set t" by simp
    with "3.IH" "3.prems"(1) r rest show ?thesis by simp
  qed
qed

lemma convert_no_underscore:
  assumes reg: "caseTablesRegular L" and us: "underscoreApart L"
    and out: "convertToExportedIdentifier L s fc = Some ident"
  shows "95 \<notin> set ident"
proof -
  have A: "\<And>r. alnum L r \<Longrightarrow> r \<noteq> 95"
    using us by (auto simp: underscoreApart_def)
  have U: "\<And>r. alnum L r \<Longrightarrow> ToUpper L r \<noteq> 95"
    using regular_upper [OF reg] A by blast
  have F: "\<And>w c. c \<in> set fc \<Longrightarrow> EqualFold L w c \<Longrightarrow> list_all (\<lambda>r. r \<noteq> 95) w
      \<Longrightarrow> list_all (\<lambda>r. r \<noteq> 95) c"
    using EqualFold_underscore [OF us] by (fastforce simp: list_all_iff)
  have "list_all (\<lambda>r. r \<noteq> 95) (concat (spec_words L s fc))"
    using A U F by (rule concat_spec_words_all)
  then have "list_all (\<lambda>r. r \<noteq> 95) (addSentinel L (concat (spec_words L s fc)))"
    by (simp add: addSentinel_all)
  with out convert_spec [of L s fc] show ?thesis
    by (auto simp: list_all_iff)
qed

lemma first_segment_unique:
  "a \<notin> set p1 \<Longrightarrow> a \<notin> set p2 \<Longrightarrow> p1 @ a # q1 = p2 @ a # q2 \<Longrightarrow> p1 = p2"
proof (induction p1 arbitrary: p2)
  case Nil
  then show ?case by (cases p2) auto
next
  case (Cons x p1)
  then show ?case by (cases p2) auto
qed

lemma last_segment_unique:
  assumes "xs @ a # c1 = ys @ a # c2" and "a \<notin> set c1" and "a \<notin> set c2"
  shows "c1 = c2"
proof -
  from assms(1) have "rev (xs @ a # c1) = rev (ys @ a # c2)"
    by simp
  then have e: "rev c1 @ a # rev xs = rev c2 @ a # rev ys"
    by simp
  have "a \<notin> set (rev c1)" and "a \<notin> set (rev c2)"
    using assms by simp_all
  then have "rev c1 = rev c2"
    using e by (rule first_segment_unique)
  then show ?thesis by simp
qed

text \<open>
  C9 (amended). For every two tables of one run whose normalized identifiers differ, and
  every pair of columns, one from each table, with the same column name, the two derived
  wrapper-type names are distinct, whatever the raw types of the columns (given regular
  case tables in which the underscore stands apart).
\<close>

theorem wrapper_names_distinct:
  assumes reg: "caseTablesRegular L" and us: "underscoreApart L"
    and t1: "convertToExportedIdentifier L tableName1 fc = Some className1"
    and t2: "convertToExportedIdentifier L tableName2 fc = Some className2"
    and diff: "className1 \<noteq> className2"
    and col: "Name fd1 = Name fd2"
  shows "\<exists>n1 n2. wrapperTypeName L fc tableName1 fd1 = Some n1
           \<and> wrapperTypeName L fc tableName2 fd2 = Some n2 \<and> n1 \<noteq> n2"
proof -
  obtain goName where g: "convertToExportedIdentifier L (Name fd1) fc = Some goName"
    using convert_spec [of L "Name fd1" fc] by blast
  let ?n1 = "fieldStructNameOf L fd1 className1 goName"
  let ?n2 = "fieldStructNameOf L fd2 className2 goName"
  have w1: "wrapperTypeName L fc tableName1 fd1 = Some ?n1"
    using t1 g by (simp add: wrapperTypeName_def)
  have w2: "wrapperTypeName L fc tableName2 fd2 = Some ?n2"
    using t2 g col by (simp add: wrapperTypeName_def)
  have u1: "95 \<notin> set className1" and u2: "95 \<notin> set className2"
    using convert_no_underscore [OF reg us] t1 t2 by blast+
  have "?n1 \<noteq> ?n2"
  proof
    assume "?n1 = ?n2"
    then have "strings_ToLower L (Type fd1) @ 95 # className1
        = strings_ToLower L (Type fd2) @ 95 # className2"
      by (simp add: fieldStructNameOf_def runes_def)
    then have "className1 = className2"
      using u1 u2 by (rule last_segment_unique)
    with diff show False by simp
  qed
  with w1 w2 show ?thesis by blast
qed

text \<open>
  Distinct tables are not enough: the tables \<open>orders\<close> and \<open>Orders\<close> have the same
  normalized identifier, and their columns \<open>id\<close> get the same wrapper-type name.
\<close>

theorem wrapper_names_distinct_counterexample:
  "runes ''orders'' \<noteq> runes ''Orders''
   \<and> wrapperTypeName ascii [] (runes ''orders'') (hd orders_columns)
       = Some (runes ''bigint_Orders_Id'')
   \<and> wrapperTypeName ascii [] (runes ''Orders'') (hd orders_columns)
       = Some (runes ''bigint_Orders_Id'')"
  by (simp add: wrapperTypeName_def fieldStructNameOf_def strings_ToLower_def
      convertToExportedIdentifier_def addSentinel_def firstRuneOf_def orders_columns_def
      runes_def ascii_def)

lemma ascii_underscore: "underscoreApart ascii"
  by (auto simp: underscoreApart_def alnum_def equalFoldRune_def ascii_def split: if_splits)

theorem wrapper_names_distinct_witness:
  "wrapperTypeName ascii [] (runes ''orders'') (hd orders_columns)
       = Some (runes ''bigint_Orders_Id'')
   \<and> wrapperTypeName ascii [] (runes ''users'') (hd users_columns)
       = Some (runes ''bigint_Users_Id'')
   \<and> (\<exists>n1 n2. wrapperTypeName ascii [] (runes ''orders'') (hd orders_columns) = Some n1
         \<and> wrapperTypeName ascii [] (runes ''users'') (hd users_columns) = Some n2
         \<and> n1 \<noteq> n2)"
proof -
  have a: "convertToExportedIdentifier ascii (runes ''orders'') [] = Some (runes ''Orders'')"
    by (simp add: convertToExportedIdentifier_def addSentinel_def firstRuneOf_def
        runes_def ascii_def)
  have b: "convertToExportedIdentifier ascii (runes ''users'') [] = Some (runes ''Users'')"
    by (simp add: convertToExportedIdentifier_def addSentinel_def firstRuneOf_def
        runes_def ascii_def)
  have c: "runes ''Orders'' \<noteq> runes ''Users''"
    by (simp add: runes_def)
  have d: "Name (hd orders_columns) = Name (hd users_columns)"
    by (simp add: orders_columns_def users_columns_def)
  have e: "wrapperTypeName ascii [] (runes ''orders'') (hd orders_columns)
       = Some (runes ''bigint_Orders_Id'')"
    by (simp add: wrapperTypeName_def fieldStructNameOf_def strings_ToLower_def
      convertToExportedIdentifier_def addSentinel_def firstRuneOf_def orders_columns_def
      runes_def ascii_def)
  have f: "wrapperTypeName ascii [] (runes ''users'') (hd users_columns)
       = Some (runes ''bigint_Users_Id'')"
    by (simp add: wrapperTypeName_def fieldStructNameOf_def strings_ToLower_def
      convertToExportedIdentifier_def addSentinel_def firstRuneOf_def users_columns_def
      runes_def ascii_def)
  from wrapper_names_distinct [OF ascii_regular ascii_underscore a b c d] e f
  show ?thesis by simp
qed

section \<open>Properties of the table emitter\<close>

lemma generateField_buffers:
  assumes "generateField L fetcher tableName className tableObjectName fcs fd b = Inr b'"
  shows "modelLines b' = modelLines b @ modelFieldOf L fcs fd"
    and "valuesBuf b' = valuesBuf b @ valueOf L fcs fd"
  using assms
  by (auto simp: generateField_def Let_def modelFieldOf_def valueOf_def goNameOf_def
      split: option.splits prod.splits list.splits)

lemma fieldsLoop_buffers:
  "fieldsLoop L fetcher tableName className tableObjectName fcs fds b = Inr b' \<Longrightarrow>
     modelLines b' = modelLines b @ concat (map (modelFieldOf L fcs) fds)
     \<and> valuesBuf b' = valuesBuf b @ concat (map (valueOf L fcs) fds)"
proof (induction fds arbitrary: b)
  case Nil
  then show ?case by simp
next
  case (Cons fd fds)
  from Cons.prems obtain b1 where
    step: "generateField L fetcher tableName className tableObjectName fcs fd b = Inr b1"
    and rest: "fieldsLoop L fetcher tableName className tableObjectName fcs fds b1 = Inr b'"
    by (auto split: sum.splits)
  from Cons.IH [OF rest] generateField_buffers [OF step] show ?case
    by simp
qed

lemma filesWritten_append: "filesWritten (a @ b) = filesWritten a @ filesWritten b"
  by (induction a rule: filesWritten.induct) simp_all

lemma askedTableNames_append:
  "askedTableNames (a @ b) \<longleftrightarrow> askedTableNames a \<or> askedTableNames b"
  by (induction a rule: askedTableNames.induct) simp_all

lemma WriteToFile_forced:
  assumes "WriteToFile W buffer outputFile True log = (log', err)"
  shows "(err = None \<and> log' = log @ [FileWritten outputFile buffer])
       \<or> (err \<noteq> None \<and> log' = log)"
proof (cases "os_OpenFile W outputFile")
  case None
  with assms show ?thesis by (simp add: WriteToFile_def)
next
  case (Some a)
  with assms have "err = Some a" and "log' = log"
    by (simp_all add: WriteToFile_def)
  then show ?thesis by simp
qed

lemma generateField_leaves:
  "generateField L fetcher tableName className tableObjectName fcs fd b \<noteq> Inl (Returned None)"
  by (auto simp: generateField_def Let_def split: option.splits prod.splits list.splits)

lemma fieldsLoop_leaves:
  "fieldsLoop L fetcher tableName className tableObjectName fcs fds b \<noteq> Inl (Returned None)"
proof (induction fds arbitrary: b)
  case Nil
  show ?case by simp
next
  case (Cons fd fds)
  show ?case
    using Cons.IH generateField_leaves [of L fetcher tableName className tableObjectName fcs fd b]
    by (cases "generateField L fetcher tableName className tableObjectName fcs fd b") auto
qed

lemma generateTable_emits:
  assumes "generateTable L W outPath fetcher dbName tableName fcs log = (log', Returned None)"
  shows "\<exists>className b.
           convertToExportedIdentifier L tableName fcs = Some className
         \<and> log' = log @ [CallGetFieldDescriptors tableName,
                          FileWritten (tableUnitPath outPath tableName)
                            (tableUnit L dbName tableName className b)]
         \<and> modelLines b
             = concat (map (modelFieldOf L fcs) (fst (GetFieldDescriptors fetcher tableName)))
         \<and> valuesBuf b
             = concat (map (valueOf L fcs) (fst (GetFieldDescriptors fetcher tableName)))"
proof -
  obtain fds e where f: "GetFieldDescriptors fetcher tableName = (fds, e)"
    by (cases "GetFieldDescriptors fetcher tableName")
  obtain className where c: "convertToExportedIdentifier L tableName fcs = Some className"
    using convert_spec [of L tableName fcs] by blast
  let ?o = "runes ''o'' @ className"
  from assms f c have e: "e = None"
    by (cases e) (simp_all add: generateTable_def Let_def)
  from assms f c e obtain b where
    loop: "fieldsLoop L fetcher tableName className ?o fcs fds (initialBuffers ?o) = Inr b"
    using fieldsLoop_leaves [of L fetcher tableName className ?o fcs fds "initialBuffers ?o"]
    by (cases "fieldsLoop L fetcher tableName className ?o fcs fds (initialBuffers ?o)")
       (simp_all add: generateTable_def Let_def)
  from assms f c e loop have
    w: "WriteToFile W (tableUnit L dbName tableName className b)
          (tableUnitPath outPath tableName) True (log @ [CallGetFieldDescriptors tableName])
        = (log', None)"
    by (simp add: generateTable_def Let_def split: prod.splits)
  from WriteToFile_forced [OF w] have
    "log' = log @ [CallGetFieldDescriptors tableName,
                   FileWritten (tableUnitPath outPath tableName)
                     (tableUnit L dbName tableName className b)]"
    by simp
  moreover from fieldsLoop_buffers [OF loop] have
    "modelLines b = concat (map (modelFieldOf L fcs) fds)"
    "valuesBuf b = concat (map (valueOf L fcs) fds)"
    by (simp_all add: initialBuffers_def)
  ultimately show ?thesis
    using c f by (intro exI [of _ className] exI [of _ b]) simp
qed

text \<open>
  C4. Whenever \<^verbatim>\<open>generateTable\<close> emits the unit of a table, the unit ends with the
  declaration of the model struct, the \<^verbatim>\<open>GetTable\<close> helper and the \<^verbatim>\<open>GetValues\<close>
  helper, as written out below. Between the braces of the model struct stands one field
  declaration per column descriptor (its comment line, if any, then the column's
  normalized name and its scalar type), and in the sequence that \<^verbatim>\<open>GetValues\<close> returns
  one value \<open>m.Name\<close> per column descriptor, both in the order in which the fetcher
  returned the descriptors: the i-th model field and the i-th value belong to the i-th
  column.
\<close>

theorem model_fields_and_values_in_column_order:
  assumes "generateTable L W outPath fetcher dbName tableName fcs log = (log', Returned None)"
  shows "\<exists>className accessors.
           convertToExportedIdentifier L tableName fcs = Some className
         \<and> log' = log @ [CallGetFieldDescriptors tableName,
                  FileWritten (tableUnitPath outPath tableName)
                    (accessors
                     @ (runes ''type '' @ (className @ runes ''Model'') @ runes '' struct {'' @ NL)
                     @ concat (map (\<lambda>fd. (if Comment fd \<noteq> []
                                       then TAB @ runes ''// ''
                                              @ ReplaceAll (Comment fd) 10 32 @ NL
                                       else [])
                                      @ TAB @ goNameOf L fcs fd
                                      @ runes '' '' @ fst (getType L fd) @ NL)
                                (fst (GetFieldDescriptors fetcher tableName)))
                     @ (runes ''}'' @ NL @ NL)
                     @ (runes ''func (m '' @ (className @ runes ''Model'')
                          @ runes '') GetTable() sqlingo.Table {'' @ NL)
                     @ (TAB @ runes ''return '' @ className @ NL)
                     @ (runes ''}'' @ NL @ NL)
                     @ (runes ''func (m '' @ (className @ runes ''Model'')
                          @ runes '') GetValues() []interface{} {'' @ NL)
                     @ (TAB @ runes ''return []interface{}{''
                          @ concat (map (\<lambda>fd. runes ''m.'' @ goNameOf L fcs fd @ runes '', '')
                                     (fst (GetFieldDescriptors fetcher tableName)))
                          @ runes ''}'' @ NL)
                     @ (runes ''}'' @ NL @ NL))]"
proof -
  from generateTable_emits [OF assms] obtain className b where
    "convertToExportedIdentifier L tableName fcs = Some className"
    "log' = log @ [CallGetFieldDescriptors tableName,
                   FileWritten (tableUnitPath outPath tableName)
                     (tableUnit L dbName tableName className b)]"
    "modelLines b
       = concat (map (modelFieldOf L fcs) (fst (GetFieldDescriptors fetcher tableName)))"
    "valuesBuf b
       = concat (map (valueOf L fcs) (fst (GetFieldDescriptors fetcher tableName)))"
    by blast
  moreover have "modelFieldOf L fcs
      = (\<lambda>fd. (if Comment fd \<noteq> [] then TAB @ runes ''// '' @ ReplaceAll (Comment fd) 10 32 @ NL
                else [])
               @ TAB @ goNameOf L fcs fd @ runes '' '' @ fst (getType L fd) @ NL)"
    by (rule ext) (simp add: modelFieldOf_def commentLineOf_def)
  moreover have "valueOf L fcs = (\<lambda>fd. runes ''m.'' @ goNameOf L fcs fd @ runes '', '')"
    by (rule ext) (simp add: valueOf_def)
  ultimately show ?thesis
    by (intro exI [of _ className]
        exI [of _ "tableAccessorUnit L dbName tableName className b"])
       (simp add: tableUnit_def tableModelUnit_def Let_def)
qed

lemma shop_orders_table:
  "snd (generateTable ascii shop_world (runes ''out'') shop_fetcher (runes ''shop'')
          (runes ''orders'') [] []) = Returned None"
  by code_simp

lemma shop_orders_model:
  "concat (map (\<lambda>fd. (if Comment fd \<noteq> []
                        then TAB @ runes ''// '' @ ReplaceAll (Comment fd) 10 32 @ NL
                        else [])
                       @ TAB @ goNameOf ascii [] fd
                       @ runes '' '' @ fst (getType ascii fd) @ NL) orders_columns)
     = TAB @ runes ''Id int64'' @ NL @ TAB @ runes ''Total float64'' @ NL
       @ TAB @ runes ''// free text'' @ NL @ TAB @ runes ''Note *string'' @ NL"
  by (simp add: goNameOf_def ReplaceAll_def getType_def
      getTypeSwitch_def strings_ToLower_def HasPrefix_def convertToExportedIdentifier_def
      addSentinel_def firstRuneOf_def orders_columns_def ascii_def runes_def NL_def TAB_def)

lemma shop_orders_values:
  "concat (map (\<lambda>fd. runes ''m.'' @ goNameOf ascii [] fd @ runes '', '') orders_columns)
     = runes ''m.Id, m.Total, m.Note, ''"
  by (simp add: goNameOf_def convertToExportedIdentifier_def
      addSentinel_def firstRuneOf_def orders_columns_def ascii_def runes_def)

theorem model_fields_and_values_in_column_order_witness:
  "\<exists>accessors.
       fst (generateTable ascii shop_world (runes ''out'') shop_fetcher (runes ''shop'')
              (runes ''orders'') [] [])
         = [CallGetFieldDescriptors (runes ''orders''),
            FileWritten (runes ''out/orders.go'')
              (accessors
               @ (runes ''type '' @ (runes ''Orders'' @ runes ''Model'') @ runes '' struct {'' @ NL)
               @ (TAB @ runes ''Id int64'' @ NL @ TAB @ runes ''Total float64'' @ NL
                  @ TAB @ runes ''// free text'' @ NL @ TAB @ runes ''Note *string'' @ NL)
               @ (runes ''}'' @ NL @ NL)
               @ (runes ''func (m '' @ (runes ''Orders'' @ runes ''Model'')
                    @ runes '') GetTable() sqlingo.Table {'' @ NL)
               @ (TAB @ runes ''return '' @ runes ''Orders'' @ NL)
               @ (runes ''}'' @ NL @ NL)
               @ (runes ''func (m '' @ (runes ''Orders'' @ runes ''Model'')
                    @ runes '') GetValues() []interface{} {'' @ NL)
               @ (TAB @ runes ''return []interface{}{''
                    @ runes ''m.Id, m.Total, m.Note, '' @ runes ''}'' @ NL)
               @ (runes ''}'' @ NL @ NL))]"
proof -
  let ?G = "generateTable ascii shop_world (runes ''out'') shop_fetcher (runes ''shop'')
              (runes ''orders'') [] []"
  have g: "?G = (fst ?G, Returned None)"
    using shop_orders_table by (metis prod.collapse)
  have c: "convertToExportedIdentifier ascii (runes ''orders'') [] = Some (runes ''Orders'')"
    by (simp add: convertToExportedIdentifier_def addSentinel_def firstRuneOf_def
        runes_def ascii_def)
  have f: "fst (GetFieldDescriptors shop_fetcher (runes ''orders'')) = orders_columns"
    by (simp add: shop_fetcher_def)
  have p: "tableUnitPath (runes ''out'') (runes ''orders'') = runes ''out/orders.go''"
    by (simp add: tableUnitPath_def runes_def)
  from model_fields_and_values_in_column_order [OF g] obtain accessors where
    "fst ?G = [] @ [CallGetFieldDescriptors (runes ''orders''),
       FileWritten (tableUnitPath (runes ''out'') (runes ''orders''))
         (accessors
          @ (runes ''type '' @ (runes ''Orders'' @ runes ''Model'') @ runes '' struct {'' @ NL)
          @ concat (map (\<lambda>fd. (if Comment fd \<noteq> []
                                  then TAB @ runes ''// '' @ ReplaceAll (Comment fd) 10 32 @ NL
                                  else [])
                                 @ TAB @ goNameOf ascii [] fd
                                 @ runes '' '' @ fst (getType ascii fd) @ NL)
                     (fst (GetFieldDescriptors shop_fetcher (runes ''orders''))))
          @ (runes ''}'' @ NL @ NL)
          @ (runes ''func (m '' @ (runes ''Orders'' @ runes ''Model'')
               @ runes '') GetTable() sqlingo.Table {'' @ NL)
          @ (TAB @ runes ''return '' @ runes ''Orders'' @ NL)
          @ (runes ''}'' @ NL @ NL)
          @ (runes ''func (m '' @ (runes ''Orders'' @ runes ''Model'')
               @ runes '') GetValues() []interface{} {'' @ NL)
          @ (TAB @ runes ''return []interface{}{''
               @ concat (map (\<lambda>fd. runes ''m.'' @ goNameOf ascii [] fd @ runes '', '')
                          (fst (GetFieldDescriptors shop_fetcher (runes ''orders''))))
               @ runes ''}'' @ NL)
          @ (runes ''}'' @ NL @ NL))]"
    unfolding c by auto
  then show ?thesis
    unfolding f p shop_orders_model shop_orders_values by (intro exI [of _ accessors]) simp
qed

lemma generateTable_log:
  assumes "generateTable L W outPath fetcher dbName tableName fcs log = (log', out)"
  shows "(out = Returned None
          \<and> (\<exists>content. log' = log @ [CallGetFieldDescriptors tableName,
                 FileWritten (tableUnitPath outPath tableName) content]))
       \<or> (out \<noteq> Returned None \<and> log' = log @ [CallGetFieldDescriptors tableName])"
proof (cases "out = Returned None")
  case True
  with assms generateTable_emits [of L W outPath fetcher dbName tableName fcs log log']
  show ?thesis by blast
next
  case False
  with assms show ?thesis
    by (auto simp: generateTable_def Let_def
        split: prod.splits option.splits sum.splits dest: WriteToFile_forced)
qed

section \<open>Properties of the orchestrator\<close>

lemma Split_nonempty: "Split s sep \<noteq> []"
  by (induction s) (auto split: list.splits)

lemma generateTables_log:
  "generateTables L W outPath fetcher dbName ts fcs log = (log', out) \<Longrightarrow>
     \<exists>written units. prefix written ts
       \<and> filesWritten log' = filesWritten log @ units
       \<and> map fst units = map (tableUnitPath outPath) written
       \<and> (out = Returned None \<longrightarrow> written = ts)
       \<and> (askedTableNames log' \<longleftrightarrow> askedTableNames log)"
proof (induction ts arbitrary: log)
  case Nil
  then show ?case by simp
next
  case (Cons t ts)
  obtain log1 o1 where g: "generateTable L W outPath fetcher dbName t fcs log = (log1, o1)"
    by (cases "generateTable L W outPath fetcher dbName t fcs log")
  from generateTable_log [OF g] show ?case
  proof
    assume a: "o1 = Returned None \<and> (\<exists>content. log1 = log @ [CallGetFieldDescriptors t,
                 FileWritten (tableUnitPath outPath t) content])"
    then obtain content where l1: "log1 = log @ [CallGetFieldDescriptors t,
                 FileWritten (tableUnitPath outPath t) content]"
      by blast
    from Cons.prems g a have "generateTables L W outPath fetcher dbName ts fcs log1 = (log', out)"
      by simp
    from Cons.IH [OF this] obtain written units where
      w: "prefix written ts"
        "filesWritten log' = filesWritten log1 @ units"
        "map fst units = map (tableUnitPath outPath) written"
        "out = Returned None \<longrightarrow> written = ts"
        "askedTableNames log' \<longleftrightarrow> askedTableNames log1"
      by blast
    have "prefix (t # written) (t # ts)"
      using w(1) by simp
    moreover have "filesWritten log'
        = filesWritten log @ ((tableUnitPath outPath t, content) # units)"
      using w(2) l1 by (simp add: filesWritten_append)
    moreover have "map fst ((tableUnitPath outPath t, content) # units)
        = map (tableUnitPath outPath) (t # written)"
      using w(3) by simp
    moreover have "out = Returned None \<longrightarrow> t # written = t # ts"
      using w(4) by simp
    moreover have "askedTableNames log' \<longleftrightarrow> askedTableNames log"
      using w(5) l1 by (simp add: askedTableNames_append)
    ultimately show ?thesis by blast
  next
    assume a: "o1 \<noteq> Returned None \<and> log1 = log @ [CallGetFieldDescriptors t]"
    with Cons.prems g have "log' = log1" and "out = o1"
      by (auto split: outcome.splits option.splits)
    with a have "prefix [] (t # ts)"
      and "filesWritten log' = filesWritten log @ []"
      and "map fst ([] :: (gostring \<times> gostring) list) = map (tableUnitPath outPath) []"
      and "out = Returned None \<longrightarrow> [] = t # ts"
      and "askedTableNames log' \<longleftrightarrow> askedTableNames log"
      by (simp_all add: filesWritten_append askedTableNames_append)
    then show ?thesis by blast
  qed
qed

lemma getTableCases_extends:
  "getTableCases L ts fcs buf = Some buf' \<Longrightarrow> prefix buf buf'"
proof (induction ts arbitrary: buf)
  case Nil
  then show ?case by simp
next
  case (Cons t ts)
  then show ?case
    by (auto split: option.splits dest!: Cons.IH intro: append_prefixD)
qed

lemma getTablesItems_extends:
  "getTablesItems L ts fcs buf = Some buf' \<Longrightarrow> prefix buf buf'"
proof (induction ts arbitrary: buf)
  case Nil
  then show ?case by simp
next
  case (Cons t ts)
  then show ?case
    by (auto split: option.splits dest!: Cons.IH intro: append_prefixD)
qed

lemma generateGetTable_extends:
  assumes "generateGetTable L buf opts = Some buf'"
  shows "prefix buf buf'"
proof -
  let ?buf1 = "buf @ (runes ''func GetTable(name string) sqlingo.Table {'' @ NL)
                     @ (TAB @ runes ''switch name {'' @ NL)"
  from assms obtain buf2 where
    1: "getTableCases L (tableNames opts) (forceCases opts) ?buf1 = Some buf2"
    by (auto simp: generateGetTable_def Let_def split: option.splits)
  let ?buf3 = "buf2 @ (TAB @ runes ''default: return nil'' @ NL)
                              @ (TAB @ runes ''}'' @ NL)
                              @ (runes ''}'' @ NL @ NL)
                              @ (runes ''func GetTables() []sqlingo.Table {'' @ NL)
                              @ (TAB @ runes ''return []sqlingo.Table{'' @ NL)"
  from assms 1 obtain buf4 where
    2: "getTablesItems L (tableNames opts) (forceCases opts) ?buf3 = Some buf4"
    and 3: "buf' = buf4 @ (TAB @ runes ''}'') @ (runes ''}'' @ NL @ NL)"
    by (auto simp: generateGetTable_def Let_def split: option.splits)
  have "prefix buf ?buf1" by simp
  also have "prefix ?buf1 buf2" using 1 by (rule getTableCases_extends)
  also have "prefix buf2 ?buf3" by simp
  also have "prefix ?buf3 buf4" using 2 by (rule getTablesItems_extends)
  also have "prefix buf4 buf'" using 3 by simp
  finally show ?thesis .
qed

lemma Itoa_version: "Itoa sqlingoGeneratorVersion = runes ''2''"
  by (simp add: Itoa_def sqlingoGeneratorVersion_def Itoa_nat.simps runes_def)

lemma guard_type_line:
  "runes ''type sqlingoRuntimeAndGeneratorVersionsShouldBeTheSame uint32''
     = runes ''type sqlingoRuntimeAndGeneratorVersionsShouldBeTheSame '' @ runes ''uint32''"
  by (simp add: runes_def)

lemma baseUnitHead_guard:
  "\<exists>pre post. baseUnitHead dbName
     = pre
       @ (runes ''type sqlingoRuntimeAndGeneratorVersionsShouldBeTheSame '' @ runes ''uint32''
            @ NL @ NL)
       @ (runes ''const _ = sqlingoRuntimeAndGeneratorVersionsShouldBeTheSame(sqlingo.SqlingoRuntimeVersion - ''
            @ Itoa sqlingoGeneratorVersion @ runes '')'' @ NL)
       @ (runes ''const _ = sqlingoRuntimeAndGeneratorVersionsShouldBeTheSame(''
            @ Itoa sqlingoGeneratorVersion @ runes '' - sqlingo.SqlingoRuntimeVersion)'' @ NL)
       @ post"
  unfolding baseUnitHead_def Let_def guard_type_line
  by (intro exI [of _ "newBuffWithBaseHeader dbName"]
        exI [of _ "NL
         @ (runes ''type table interface {'' @ NL)
         @ (TAB @ runes ''sqlingo.Table'' @ NL)
         @ (runes ''}'' @ NL @ NL)
         @ (runes ''type numberField interface {'' @ NL)
         @ (TAB @ runes ''sqlingo.NumberField'' @ NL)
         @ (runes ''}'' @ NL @ NL)
         @ (runes ''type stringField interface {'' @ NL)
         @ (TAB @ runes ''sqlingo.StringField'' @ NL)
         @ (runes ''}'' @ NL @ NL)
         @ (runes ''type booleanField interface {'' @ NL)
         @ (TAB @ runes ''sqlingo.BooleanField'' @ NL)
         @ (runes ''}'' @ NL @ NL)"]) (simp only: append_assoc)

lemma Generate_tail:
  assumes t: "(case generateGetTable L (baseUnitHead dbName) opts1 of
                 None \<Rightarrow> (log1, Panicked)
               | Some buf' \<Rightarrow>
                   (case WriteToFile W buf' (baseUnitPath outPath) True log1 of
                      (log2, Some err) \<Rightarrow> (log2, Returned (Some err))
                    | (log2, None) \<Rightarrow>
                        generateTables L W outPath fetcher dbName
                          (tableNames opts1) (forceCases opts1) log2)) = (log, out)"
  shows "(log = log1 \<and> out \<noteq> Returned None)
       \<or> (\<exists>buf'. prefix (baseUnitHead dbName) buf'
            \<and> generateTables L W outPath fetcher dbName (tableNames opts1) (forceCases opts1)
                 (log1 @ [FileWritten (baseUnitPath outPath) buf']) = (log, out))"
proof (cases "generateGetTable L (baseUnitHead dbName) opts1")
  case None
  with t show ?thesis by auto
next
  case (Some buf')
  then have p: "prefix (baseUnitHead dbName) buf'"
    by (rule generateGetTable_extends)
  obtain log2 err where w: "WriteToFile W buf' (baseUnitPath outPath) True log1 = (log2, err)"
    by (cases "WriteToFile W buf' (baseUnitPath outPath) True log1")
  from WriteToFile_forced [OF w] show ?thesis
  proof
    assume a: "err = None \<and> log2 = log1 @ [FileWritten (baseUnitPath outPath) buf']"
    with t Some w have "generateTables L W outPath fetcher dbName (tableNames opts1)
        (forceCases opts1) (log1 @ [FileWritten (baseUnitPath outPath) buf']) = (log, out)"
      by simp
    with p show ?thesis by blast
  next
    assume a: "err \<noteq> None \<and> log2 = log1"
    with t Some w show ?thesis by auto
  qed
qed

lemma Generate_run:
  assumes g: "Generate L W F driverName = (log, out)"
  shows "(filesWritten log = [] \<and> out \<noteq> Returned None
            \<and> (askedTableNames log \<longrightarrow> tables F = []))
       \<or> (\<exists>fetcher dbName buf' log2.
            getSchemaFetcherFactory W driverName = Some fetcher
          \<and> filesWritten log2 = [(baseUnitPath (outputPath F), buf')]
          \<and> prefix (baseUnitHead dbName) buf'
          \<and> (askedTableNames log2 \<longleftrightarrow> tables F = [])
          \<and> generateTables L W (outputPath F) fetcher dbName
               (if tables F \<noteq> [] then Split (tables F) 44 else fst (GetTableNames fetcher))
               (forceCases (parseOptions F)) log2 = (log, out))"
proof (cases "outputPath F = [] \<or> databaseConnection F = []")
  case True
  then have "Generate L W F driverName = ([], Exited 1)"
    by (auto simp: Generate_def)
  with g have "log = []" and "out = Exited 1" by simp_all
  then show ?thesis by simp
next
  case go: False
  show ?thesis
  proof (cases "sql_Open W driverName (dataSourceName (parseOptions F))")
    case (Some err)
    with go have "Generate L W F driverName = ([], Returned (Some err))"
      by (simp add: Generate_def Let_def)
    with g have "log = []" and "out = Returned (Some err)" by simp_all
    then show ?thesis by simp
  next
    case opened: None
    show ?thesis
    proof (cases "getSchemaFetcherFactory W driverName")
      case None
      with go opened have "Generate L W F driverName = ([], Exited 2)"
        by (simp add: Generate_def Let_def)
      with g have "log = []" and "out = Exited 2" by simp_all
      then show ?thesis by simp
    next
      case (Some fetcher)
      obtain dbName e where db: "GetDatabaseName fetcher = (dbName, e)"
        by (cases "GetDatabaseName fetcher")
      show ?thesis
      proof (cases "e = None \<and> dbName \<noteq> []")
        case False
        with go opened Some db have "\<exists>err. Generate L W F driverName
            = ([CallGetDatabaseName], Returned (Some err))"
          by (cases e) (simp_all add: Generate_def Let_def)
        with g have "log = [CallGetDatabaseName]" and "out \<noteq> Returned None" by auto
        then show ?thesis by simp
      next
        case True
        show ?thesis
        proof (cases "tables F = []")
          case explicit: False
          then have tn: "tableNames (parseOptions F) = Split (tables F) 44"
            by (simp add: parseOptions_def)
          from go opened Some db True tn Split_nonempty [of "tables F" 44] have
            "Generate L W F driverName = (case generateGetTable L (baseUnitHead dbName) (parseOptions F) of
                 None \<Rightarrow> ([CallGetDatabaseName], Panicked)
               | Some buf' \<Rightarrow>
                   (case WriteToFile W buf' (baseUnitPath (outputPath F)) True
                           [CallGetDatabaseName] of
                      (log2, Some err) \<Rightarrow> (log2, Returned (Some err))
                    | (log2, None) \<Rightarrow>
                        generateTables L W (outputPath F) fetcher dbName
                          (tableNames (parseOptions F)) (forceCases (parseOptions F)) log2))"
            by (simp add: Generate_def Let_def)
          with g have "(case generateGetTable L (baseUnitHead dbName) (parseOptions F) of
                 None \<Rightarrow> ([CallGetDatabaseName], Panicked)
               | Some buf' \<Rightarrow>
                   (case WriteToFile W buf' (baseUnitPath (outputPath F)) True
                           [CallGetDatabaseName] of
                      (log2, Some err) \<Rightarrow> (log2, Returned (Some err))
                    | (log2, None) \<Rightarrow>
                        generateTables L W (outputPath F) fetcher dbName
                          (tableNames (parseOptions F)) (forceCases (parseOptions F)) log2))
             = (log, out)"
            by simp
          from Generate_tail [OF this] show ?thesis
          proof
            assume "log = [CallGetDatabaseName] \<and> out \<noteq> Returned None"
            then show ?thesis by simp
          next
            assume "\<exists>buf'. prefix (baseUnitHead dbName) buf'
              \<and> generateTables L W (outputPath F) fetcher dbName (tableNames (parseOptions F))
                   (forceCases (parseOptions F))
                   ([CallGetDatabaseName] @ [FileWritten (baseUnitPath (outputPath F)) buf'])
                 = (log, out)"
            then obtain buf' where b: "prefix (baseUnitHead dbName) buf'"
              "generateTables L W (outputPath F) fetcher dbName (Split (tables F) 44)
                   (forceCases (parseOptions F))
                   [CallGetDatabaseName, FileWritten (baseUnitPath (outputPath F)) buf']
                 = (log, out)"
              using tn by auto
            show ?thesis
              apply (rule disjI2)
              apply (rule exI [of _ fetcher], rule exI [of _ dbName], rule exI [of _ buf'])
              apply (rule exI [of _ "[CallGetDatabaseName,
                       FileWritten (baseUnitPath (outputPath F)) buf']"])
              using Some b explicit apply simp
              done
          qed
        next
          case discover: True
          then have tn: "tableNames (parseOptions F) = []"
            by (simp add: parseOptions_def)
          obtain names e2 where gt: "GetTableNames fetcher = (names, e2)"
            by (cases "GetTableNames fetcher")
          show ?thesis
          proof (cases e2)
            case (Some err)
            with go opened \<open>getSchemaFetcherFactory W driverName = Some fetcher\<close> db True tn gt
            have "Generate L W F driverName
                = ([CallGetDatabaseName, CallGetTableNames], Returned (Some err))"
              by (simp add: Generate_def Let_def)
            with g have "log = [CallGetDatabaseName, CallGetTableNames]"
              and "out = Returned (Some err)" by simp_all
            with discover show ?thesis by simp
          next
            case None
            let ?opts1 = "(parseOptions F)\<lparr>tableNames := names\<rparr>"
            from go opened Some db True tn gt None have
              "Generate L W F driverName = (case generateGetTable L (baseUnitHead dbName) ?opts1 of
                 None \<Rightarrow> ([CallGetDatabaseName, CallGetTableNames], Panicked)
               | Some buf' \<Rightarrow>
                   (case WriteToFile W buf' (baseUnitPath (outputPath F)) True
                           [CallGetDatabaseName, CallGetTableNames] of
                      (log2, Some err) \<Rightarrow> (log2, Returned (Some err))
                    | (log2, None) \<Rightarrow>
                        generateTables L W (outputPath F) fetcher dbName
                          (tableNames ?opts1) (forceCases ?opts1) log2))"
              by (simp add: Generate_def Let_def)
            with g have "(case generateGetTable L (baseUnitHead dbName) ?opts1 of
                 None \<Rightarrow> ([CallGetDatabaseName, CallGetTableNames], Panicked)
               | Some buf' \<Rightarrow>
                   (case WriteToFile W buf' (baseUnitPath (outputPath F)) True
                           [CallGetDatabaseName, CallGetTableNames] of
                      (log2, Some err) \<Rightarrow> (log2, Returned (Some err))
                    | (log2, None) \<Rightarrow>
                        generateTables L W (outputPath F) fetcher dbName
                          (tableNames ?opts1) (forceCases ?opts1) log2))
               = (log, out)"
              by simp
            from Generate_tail [OF this] show ?thesis
            proof
              assume "log = [CallGetDatabaseName, CallGetTableNames] \<and> out \<noteq> Returned None"
              with discover show ?thesis by simp
            next
              assume "\<exists>buf'. prefix (baseUnitHead dbName) buf'
                \<and> generateTables L W (outputPath F) fetcher dbName (tableNames ?opts1)
                     (forceCases ?opts1)
                     ([CallGetDatabaseName, CallGetTableNames]
                        @ [FileWritten (baseUnitPath (outputPath F)) buf'])
                   = (log, out)"
              then obtain buf' where b: "prefix (baseUnitHead dbName) buf'"
                "generateTables L W (outputPath F) fetcher dbName names
                     (forceCases (parseOptions F))
                     [CallGetDatabaseName, CallGetTableNames,
                      FileWritten (baseUnitPath (outputPath F)) buf']
                   = (log, out)"
                by auto
              show ?thesis
                apply (rule disjI2)
                apply (rule exI [of _ fetcher], rule exI [of _ dbName], rule exI [of _ buf'])
                apply (rule exI [of _ "[CallGetDatabaseName, CallGetTableNames,
                         FileWritten (baseUnitPath (outputPath F)) buf']"])
                using Some b discover gt apply simp
                done
            qed
          qed
        qed
      qed
    qed
  qed
qed

lemma Generate_files:
  assumes g: "Generate L W F driverName = (log, out)"
  shows "(filesWritten log = [] \<and> out \<noteq> Returned None
            \<and> (askedTableNames log \<longrightarrow> tables F = []))
       \<or> (\<exists>fetcher dbName buf' written units.
            getSchemaFetcherFactory W driverName = Some fetcher
          \<and> prefix (baseUnitHead dbName) buf'
          \<and> prefix written
               (if tables F \<noteq> [] then Split (tables F) 44 else fst (GetTableNames fetcher))
          \<and> filesWritten log = (baseUnitPath (outputPath F), buf') # units
          \<and> map fst units = map (tableUnitPath (outputPath F)) written
          \<and> (out = Returned None \<longrightarrow>
               written
                 = (if tables F \<noteq> [] then Split (tables F) 44 else fst (GetTableNames fetcher)))
          \<and> (askedTableNames log \<longleftrightarrow> tables F = []))"
  using Generate_run [OF g]
proof
  assume "filesWritten log = [] \<and> out \<noteq> Returned None
            \<and> (askedTableNames log \<longrightarrow> tables F = [])"
  then show ?thesis by blast
next
  assume "\<exists>fetcher dbName buf' log2.
            getSchemaFetcherFactory W driverName = Some fetcher
          \<and> filesWritten log2 = [(baseUnitPath (outputPath F), buf')]
          \<and> prefix (baseUnitHead dbName) buf'
          \<and> (askedTableNames log2 \<longleftrightarrow> tables F = [])
          \<and> generateTables L W (outputPath F) fetcher dbName
               (if tables F \<noteq> [] then Split (tables F) 44 else fst (GetTableNames fetcher))
               (forceCases (parseOptions F)) log2 = (log, out)"
  then obtain fetcher dbName buf' log2 where
    f: "getSchemaFetcherFactory W driverName = Some fetcher"
    and w: "filesWritten log2 = [(baseUnitPath (outputPath F), buf')]"
    and p: "prefix (baseUnitHead dbName) buf'"
    and a: "askedTableNames log2 \<longleftrightarrow> tables F = []"
    and t: "generateTables L W (outputPath F) fetcher dbName
               (if tables F \<noteq> [] then Split (tables F) 44 else fst (GetTableNames fetcher))
               (forceCases (parseOptions F)) log2 = (log, out)"
    by blast
  from generateTables_log [OF t] obtain written units where
    "prefix written
       (if tables F \<noteq> [] then Split (tables F) 44 else fst (GetTableNames fetcher))"
    "filesWritten log = filesWritten log2 @ units"
    "map fst units = map (tableUnitPath (outputPath F)) written"
    "out = Returned None \<longrightarrow>
       written = (if tables F \<noteq> [] then Split (tables F) 44 else fst (GetTableNames fetcher))"
    "askedTableNames log \<longleftrightarrow> askedTableNames log2"
    by blast
  with f w p a show ?thesis
    by (intro disjI2 exI [of _ fetcher] exI [of _ dbName] exI [of _ buf']
        exI [of _ written] exI [of _ units]) simp
qed


lemma shop_run_explicit:
  "snd (Generate ascii shop_world shop_flags (runes ''mysql'')) = Returned None"
  by code_simp



lemma shop_paths:
  "baseUnitPath (outputPath shop_flags) = runes ''out/base.dsl.go''"
  "tableUnitPath (outputPath shop_flags) (runes ''orders'') = runes ''out/orders.go''"
  "tableUnitPath (outputPath shop_flags) (runes ''users'') = runes ''out/users.go''"
  by (simp_all add: baseUnitPath_def tableUnitPath_def shop_flags_def runes_def)


lemma uint32_range: "goIntegerRange (runes ''uint32'') = Some (0, 2 ^ 32 - 1)"
  by (simp add: goIntegerRange_def runes_def)

lemma int64_range: "goIntegerRange (runes ''int64'') = Some (- (2 ^ 63), 2 ^ 63 - 1)"
  by (simp add: goIntegerRange_def runes_def)

lemma guard_meaning:
  "versionGuardCompiles (runes ''uint32'') sqlingoGeneratorVersion v
     \<longleftrightarrow> v = sqlingoGeneratorVersion"
  by (auto simp: versionGuardCompiles_def constantConverts_def uint32_range
      sqlingoGeneratorVersion_def)

text \<open>
  C6. The first file a run writes, if it writes any, is the base unit, and the base unit
  contains the version guard, as written out below: the declaration of the guard type
  as \<^verbatim>\<open>uint32\<close>, and the two constant declarations that convert to the guard type
  the difference of the runtime's version and the generator's version, written 2, and
  the opposite difference. For the type and the version that stand in the text, both
  conversions compile exactly when the runtime's version equals the generator's, so a
  mismatch in either direction fails the build.
\<close>

theorem base_unit_has_version_guard:
  assumes "Generate L W F driverName = (log, out)"
    and "filesWritten log = (path, content) # rest"
  shows "path = baseUnitPath (outputPath F)
       \<and> (\<exists>typeName version pre post.
             typeName = runes ''uint32''
           \<and> version = sqlingoGeneratorVersion
           \<and> version = 2
           \<and> Itoa version = runes ''2''
           \<and> content
               = pre
                 @ (runes ''type sqlingoRuntimeAndGeneratorVersionsShouldBeTheSame '' @ typeName
                      @ NL @ NL)
                 @ (runes ''const _ = sqlingoRuntimeAndGeneratorVersionsShouldBeTheSame(sqlingo.SqlingoRuntimeVersion - ''
                      @ Itoa version @ runes '')'' @ NL)
                 @ (runes ''const _ = sqlingoRuntimeAndGeneratorVersionsShouldBeTheSame(''
                      @ Itoa version @ runes '' - sqlingo.SqlingoRuntimeVersion)'' @ NL)
                 @ post
           \<and> (\<forall>v. versionGuardCompiles typeName version v \<longleftrightarrow> v = version))"
proof -
  from Generate_files [OF assms(1)] assms(2) obtain dbName where
    p: "path = baseUnitPath (outputPath F)" and c: "prefix (baseUnitHead dbName) content"
    by auto
  from c obtain tail where t: "content = baseUnitHead dbName @ tail"
    by (auto simp: prefix_def)
  obtain pre post where b: "baseUnitHead dbName
     = pre
       @ (runes ''type sqlingoRuntimeAndGeneratorVersionsShouldBeTheSame '' @ runes ''uint32''
            @ NL @ NL)
       @ (runes ''const _ = sqlingoRuntimeAndGeneratorVersionsShouldBeTheSame(sqlingo.SqlingoRuntimeVersion - ''
            @ Itoa sqlingoGeneratorVersion @ runes '')'' @ NL)
       @ (runes ''const _ = sqlingoRuntimeAndGeneratorVersionsShouldBeTheSame(''
            @ Itoa sqlingoGeneratorVersion @ runes '' - sqlingo.SqlingoRuntimeVersion)'' @ NL)
       @ post"
    using baseUnitHead_guard by blast
  have v: "sqlingoGeneratorVersion = 2"
    by (simp add: sqlingoGeneratorVersion_def)
  have "content
     = pre
       @ (runes ''type sqlingoRuntimeAndGeneratorVersionsShouldBeTheSame '' @ runes ''uint32''
            @ NL @ NL)
       @ (runes ''const _ = sqlingoRuntimeAndGeneratorVersionsShouldBeTheSame(sqlingo.SqlingoRuntimeVersion - ''
            @ Itoa sqlingoGeneratorVersion @ runes '')'' @ NL)
       @ (runes ''const _ = sqlingoRuntimeAndGeneratorVersionsShouldBeTheSame(''
            @ Itoa sqlingoGeneratorVersion @ runes '' - sqlingo.SqlingoRuntimeVersion)'' @ NL)
       @ (post @ tail)"
    unfolding t b by simp
  with v Itoa_version guard_meaning have
    "\<exists>typeName version pre post.
             typeName = runes ''uint32''
           \<and> version = sqlingoGeneratorVersion
           \<and> version = 2
           \<and> Itoa version = runes ''2''
           \<and> content
               = pre
                 @ (runes ''type sqlingoRuntimeAndGeneratorVersionsShouldBeTheSame '' @ typeName
                      @ NL @ NL)
                 @ (runes ''const _ = sqlingoRuntimeAndGeneratorVersionsShouldBeTheSame(sqlingo.SqlingoRuntimeVersion - ''
                      @ Itoa version @ runes '')'' @ NL)
                 @ (runes ''const _ = sqlingoRuntimeAndGeneratorVersionsShouldBeTheSame(''
                      @ Itoa version @ runes '' - sqlingo.SqlingoRuntimeVersion)'' @ NL)
                 @ post
           \<and> (\<forall>v. versionGuardCompiles typeName version v \<longleftrightarrow> v = version)"
    by (intro exI [of _ "runes ''uint32''"] exI [of _ sqlingoGeneratorVersion]
        exI [of _ pre] exI [of _ "post @ tail"]) blast
  with p show ?thesis by blast
qed

theorem base_unit_has_version_guard_witness:
  "(\<exists>content rest pre post.
       filesWritten (fst (Generate ascii shop_world shop_flags (runes ''mysql'')))
         = (runes ''out/base.dsl.go'', content) # rest
     \<and> content
         = pre
           @ (runes ''type sqlingoRuntimeAndGeneratorVersionsShouldBeTheSame '' @ runes ''uint32''
                @ NL @ NL)
           @ (runes ''const _ = sqlingoRuntimeAndGeneratorVersionsShouldBeTheSame(sqlingo.SqlingoRuntimeVersion - ''
                @ runes ''2'' @ runes '')'' @ NL)
           @ (runes ''const _ = sqlingoRuntimeAndGeneratorVersionsShouldBeTheSame(''
                @ runes ''2'' @ runes '' - sqlingo.SqlingoRuntimeVersion)'' @ NL)
           @ post)
   \<and> versionGuardCompiles (runes ''uint32'') 2 2
   \<and> \<not> versionGuardCompiles (runes ''uint32'') 2 1
   \<and> \<not> versionGuardCompiles (runes ''uint32'') 2 3
   \<and> versionGuardCompiles (runes ''int64'') 2 3"
proof -
  let ?G = "Generate ascii shop_world shop_flags (runes ''mysql'')"
  have g: "?G = (fst ?G, Returned None)"
    using shop_run_explicit by (metis prod.collapse)
  from Generate_files [OF g] obtain content rest where
    w: "filesWritten (fst ?G) = (baseUnitPath (outputPath shop_flags), content) # rest"
    by auto
  have i: "versionGuardCompiles (runes ''int64'') 2 3"
    by (simp add: versionGuardCompiles_def constantConverts_def int64_range)
  from base_unit_has_version_guard [OF g w] obtain pre post where
    a: "content
         = pre
           @ (runes ''type sqlingoRuntimeAndGeneratorVersionsShouldBeTheSame '' @ runes ''uint32''
                @ NL @ NL)
           @ (runes ''const _ = sqlingoRuntimeAndGeneratorVersionsShouldBeTheSame(sqlingo.SqlingoRuntimeVersion - ''
                @ runes ''2'' @ runes '')'' @ NL)
           @ (runes ''const _ = sqlingoRuntimeAndGeneratorVersionsShouldBeTheSame(''
                @ runes ''2'' @ runes '' - sqlingo.SqlingoRuntimeVersion)'' @ NL)
           @ post"
    and d: "\<forall>v. versionGuardCompiles (runes ''uint32'') 2 v \<longleftrightarrow> v = 2"
    by auto
  have "\<exists>content rest pre post.
       filesWritten (fst ?G) = (runes ''out/base.dsl.go'', content) # rest
     \<and> content
         = pre
           @ (runes ''type sqlingoRuntimeAndGeneratorVersionsShouldBeTheSame '' @ runes ''uint32''
                @ NL @ NL)
           @ (runes ''const _ = sqlingoRuntimeAndGeneratorVersionsShouldBeTheSame(sqlingo.SqlingoRuntimeVersion - ''
                @ runes ''2'' @ runes '')'' @ NL)
           @ (runes ''const _ = sqlingoRuntimeAndGeneratorVersionsShouldBeTheSame(''
                @ runes ''2'' @ runes '' - sqlingo.SqlingoRuntimeVersion)'' @ NL)
           @ post"
    using w a by (intro exI [of _ content] exI [of _ rest] exI [of _ pre] exI [of _ post])
      (simp add: shop_paths)
  with d i show ?thesis by simp
qed

end
